theory Spec2Isabelle
  imports Complex_Main
begin

section \<open>Data model\<close>

text \<open>
  Python objects are referenced by identity; the model keeps an explicit store from
  agent references to agent records and from cell references to patch records.
\<close>

type_synonym aid = nat
type_synonym cid = nat

text \<open>An agent (\<open>SiteGroup\<close>): its \<open>breed\<close> string, its \<open>size\<close> (field \<open>gsize\<close>, since
  \<open>size\<close> is a HOL constant), the cell it stands on (\<open>_cell\<close>, \<open>None\<close> when it is not on
  earth) and whether it is alive.\<close>

record actor =
  breed :: string
  gsize :: real
  cell :: "cid option"
  alive :: bool

text \<open>A patch cell: the agents standing on it, in order of arrival, the carrying
  capacity attribute \<open>lim_h\<close> and the two arability predicates.\<close>

record patch =
  agents :: "aid list"
  lim_h :: real
  is_arable :: bool
  is_rice_arable :: bool

text \<open>\<open>self.params\<close> of a Hunter: \<open>params.is_complex\<close> (field \<open>is_complex_size\<close>),
  \<open>params.intensified_coefficient\<close>, the dictionary \<open>params.convert_prob\<close> and the lower
  bound of the size.\<close>

record hunter_params =
  is_complex_size :: real
  intensified_coefficient :: real
  convert_prob :: "string \<rightharpoonup> real"
  min_size :: real

text \<open>The world: the object store, the Hunter parameters, \<open>model.params.loss_rate\<close>, the
  random source (\<open>draws\<close> is the sequence of values \<open>random.random()\<close> returns, \<open>drawn\<close>
  counts the values taken so far) and the next unused agent reference.\<close>

record world =
  actor_of :: "aid \<Rightarrow> actor"
  patch_of :: "cid \<Rightarrow> patch"
  params :: hunter_params
  loss_rate :: real
  draws :: "nat \<Rightarrow> real"
  drawn :: nat
  next_id :: aid

datatype error = TypeError | AttributeError

text \<open>The outcome of a call: it returns a value in a new state, it raises in the state
  reached when the exception leaves the call, or the model ran out of fuel.\<close>

datatype ('a, 's) result = Ok 'a 's | Raised error 's | OutOfFuel

text \<open>\<open>returning v r\<close>: the call \<open>r\<close> is made for its effect and \<open>v\<close> is returned after it; an
  exception of \<open>r\<close> propagates. \<open>bind r f\<close>: the statements \<open>f\<close> follow the call \<open>r\<close>.\<close>

definition returning :: "'b \<Rightarrow> ('a, 's) result \<Rightarrow> ('b, 's) result" where
  "returning v r = (case r of Ok x s \<Rightarrow> Ok v s | Raised e s \<Rightarrow> Raised e s | OutOfFuel \<Rightarrow> OutOfFuel)"

definition bind :: "('a, 's) result \<Rightarrow> ('a \<Rightarrow> 's \<Rightarrow> ('b, 's) result) \<Rightarrow> ('b, 's) result" where
  "bind r f = (case r of Ok x s \<Rightarrow> f x s | Raised e s \<Rightarrow> Raised e s | OutOfFuel \<Rightarrow> OutOfFuel)"

text \<open>Functions of this repository that are not in the given sources, and of the ABSES
  framework, that the Hunter methods call: \<open>search_a_new_place\<close> (people.py),
  \<open>PatchCell.get_neighboring_cells\<close> and \<open>SiteGroup.diffuse\<close>. They are parameters.\<close>

record env =
  search_a_new_place :: "aid \<Rightarrow> cid \<Rightarrow> nat \<Rightarrow> world \<Rightarrow> cid option"
  get_neighboring_cells :: "cid \<Rightarrow> nat \<Rightarrow> bool \<Rightarrow> cid list"
  site_diffuse :: "aid \<Rightarrow> (real \<times> real) option \<Rightarrow> world \<Rightarrow> (aid option, world) result"

section \<open>Properties and base operations of a group\<close>

definition on_earth :: "world \<Rightarrow> aid \<Rightarrow> bool" where
  "on_earth w a = (cell (actor_of w a) \<noteq> None)"

text \<open>\<open>Hunter.max_size\<close>: \<open>np.ceil(self.loc("lim_h")) if self.on_earth else 100_000_000\<close>.\<close>

definition max_size :: "world \<Rightarrow> aid \<Rightarrow> real" where
  "max_size w a =
     (case cell (actor_of w a) of
        Some c \<Rightarrow> of_int \<lceil>lim_h (patch_of w c)\<rceil>
      | None \<Rightarrow> 100000000)"

text \<open>\<open>Hunter.is_complex\<close>: \<open>self.size > self.params.is_complex if self.on_earth else False\<close>.\<close>

definition is_complex :: "world \<Rightarrow> aid \<Rightarrow> bool" where
  "is_complex w a =
     (if on_earth w a then gsize (actor_of w a) > is_complex_size (params w) else False)"

text \<open>\<open>cell.has_agent()\<close> and \<open>cell.has_agent(breed=b)\<close>.\<close>

definition has_agent :: "world \<Rightarrow> cid \<Rightarrow> bool" where
  "has_agent w c = (agents (patch_of w c) \<noteq> [])"

definition has_agent_breed :: "world \<Rightarrow> cid \<Rightarrow> string \<Rightarrow> bool" where
  "has_agent_breed w c b = list_ex (\<lambda>a. breed (actor_of w a) = b) (agents (patch_of w c))"

text \<open>Removing an agent from the cell it stands on.\<close>

definition leave_cell :: "aid \<Rightarrow> world \<Rightarrow> world" where
  "leave_cell a w =
     (case cell (actor_of w a) of
        None \<Rightarrow> w
      | Some c \<Rightarrow>
          w\<lparr>patch_of := (patch_of w)
               (c := (patch_of w c)\<lparr>agents := removeAll a (agents (patch_of w c))\<rparr>)\<rparr>)"

text \<open>Modelled from the spec: \<open>die()\<close> of the group entity (people.py and the ABSES actor,
  not in the given sources): sets \<open>alive\<close> to false and leaves the group unplaced.\<close>

definition die :: "aid \<Rightarrow> world \<Rightarrow> world" where
  "die a w =
     (let w1 = leave_cell a w
      in w1\<lparr>actor_of := (actor_of w1)(a := (actor_of w1 a)\<lparr>cell := None, alive := False\<rparr>)\<rparr>)"

text \<open>Modelled from the spec: \<open>SiteGroup.put_on\<close> (\<open>super().put_on(cell)\<close>, not in the given
  sources): without a cell the group becomes unplaced; with a cell the placement always
  succeeds structurally, the group joins the agents of the cell after those already
  there.\<close>

definition site_put_on :: "aid \<Rightarrow> cid option \<Rightarrow> world \<Rightarrow> world" where
  "site_put_on a co w =
     (let w1 = leave_cell a w;
          w2 = w1\<lparr>actor_of := (actor_of w1)(a := (actor_of w1 a)\<lparr>cell := co\<rparr>)\<rparr>
      in case co of
           None \<Rightarrow> w2
         | Some c \<Rightarrow>
             w2\<lparr>patch_of := (patch_of w2)
                  (c := (patch_of w2 c)\<lparr>agents := agents (patch_of w2 c) @ [a]\<rparr>)\<rparr>)"

text \<open>Modelled from the spec: \<open>clampedSize(value)\<close> of the group entity (people.py, not in
  the given sources): the value bounded to \<open>[min_size, max_size]\<close>; for a Hunter \<open>max_size\<close>
  is the property above.\<close>

definition clamped_size :: "world \<Rightarrow> aid \<Rightarrow> real \<Rightarrow> real" where
  "clamped_size w a v = max (min_size (params w)) (min (max_size w a) v)"

text \<open>Modelled from the spec: the setter of \<open>SiteGroup.size\<close> (people.py, not in the given
  sources): the size is clamped immediately after any mutation.\<close>

definition set_size :: "aid \<Rightarrow> real \<Rightarrow> world \<Rightarrow> world" where
  "set_size a v w =
     w\<lparr>actor_of := (actor_of w)(a := (actor_of w a)\<lparr>gsize := clamped_size w a v\<rparr>)\<rparr>"

text \<open>\<open>self.random.random()\<close>: the next value of the random source.\<close>

definition random :: "world \<Rightarrow> real \<times> world" where
  "random w = (draws w (drawn w), w\<lparr>drawn := Suc (drawn w)\<rparr>)"

text \<open>Modelled from the spec: \<open>cell.convert(agent, breed)\<close> of \<open>CompetingCell\<close> (env.py, not
  in the given sources): a new entity of the target strategy with the same size takes the
  place of the Forager on the cell; the original Forager is terminated.\<close>

definition cell_convert :: "cid \<Rightarrow> aid \<Rightarrow> string \<Rightarrow> world \<Rightarrow> aid \<times> world" where
  "cell_convert c a to_breed w =
     (let new = next_id w;
          born = \<lparr>breed = to_breed, gsize = gsize (actor_of w a), cell = Some c, alive = True\<rparr>;
          w1 = die a w
      in (new,
          w1\<lparr>actor_of := (actor_of w1)(new := born),
             patch_of := (patch_of w1)
               (c := (patch_of w1 c)\<lparr>agents := agents (patch_of w1 c) @ [new]\<rparr>),
             next_id := Suc new\<rparr>))"

section \<open>The Hunter (abses\_sce/hunter.py)\<close>

text \<open>\<open>Hunter.diffuse\<close>: the group splits only when its size has reached \<open>max_size\<close>.\<close>

definition diffuse ::
  "env \<Rightarrow> aid \<Rightarrow> (real \<times> real) option \<Rightarrow> world \<Rightarrow> (aid option, world) result" where
  "diffuse E self group_range w =
     (if gsize (actor_of w self) \<ge> max_size w self
      then site_diffuse E self group_range w
      else Ok None w)"

text \<open>\<open>Hunter._convert_to_farmer\<close>. Reading a cell of an unplaced Hunter fails on
  \<open>None\<close>.\<close>

definition convert_to_farmer ::
  "env \<Rightarrow> aid \<Rightarrow> nat \<Rightarrow> bool \<Rightarrow> world \<Rightarrow> (aid, world) result" where
  "convert_to_farmer E self radius moore w =
     (case cell (actor_of w self) of
        None \<Rightarrow> Raised AttributeError w
      | Some c \<Rightarrow>
          (let cells = get_neighboring_cells E c radius moore;
               cond1 = list_ex (\<lambda>n. has_agent_breed w n ''Farmer'') cells;
               cond2 = is_arable (patch_of w c);
               prob = (case convert_prob (params w) ''to_farmer'' of
                         Some p \<Rightarrow> p | None \<Rightarrow> 0);
               (r, w1) = random w;
               cond3 = (r < prob)
           in if cond1 \<and> cond2 \<and> cond3
              then (case cell_convert c self ''Farmer'' w1 of (agent, w2) \<Rightarrow> Ok agent w2)
              else Ok self w1))"

text \<open>\<open>Hunter._convert_to_rice\<close>.\<close>

definition convert_to_rice ::
  "env \<Rightarrow> aid \<Rightarrow> nat \<Rightarrow> bool \<Rightarrow> world \<Rightarrow> (aid, world) result" where
  "convert_to_rice E self radius moore w =
     (case cell (actor_of w self) of
        None \<Rightarrow> Raised AttributeError w
      | Some c \<Rightarrow>
          (let cells = get_neighboring_cells E c radius moore;
               cond1 = list_ex (\<lambda>n. has_agent_breed w n ''RiceFarmer'') cells;
               cond2 = is_rice_arable (patch_of w c);
               prob = (case convert_prob (params w) ''to_rice'' of
                         Some p \<Rightarrow> p | None \<Rightarrow> 0);
               (r, w1) = random w;
               cond3 = (r < prob)
           in if cond1 \<and> cond2 \<and> cond3
              then (case cell_convert c self ''RiceFarmer'' w1 of (agent, w2) \<Rightarrow> Ok agent w2)
              else Ok self w1))"

text \<open>\<open>Hunter.convert\<close>: the farmer path first; \<open>agent is not self\<close> compares references.\<close>

definition convert :: "env \<Rightarrow> aid \<Rightarrow> nat \<Rightarrow> bool \<Rightarrow> world \<Rightarrow> (aid, world) result" where
  "convert E self radius moore w =
     (case convert_to_farmer E self radius moore w of
        Ok agent w1 \<Rightarrow>
          if agent \<noteq> self then Ok agent w1 else convert_to_rice E self radius moore w1
      | Raised e w1 \<Rightarrow> Raised e w1
      | OutOfFuel \<Rightarrow> OutOfFuel)"

text \<open>
  \<open>put_on\<close>, \<open>compete\<close>, \<open>_compete_with_hunter\<close>, \<open>_compete_with_farmer\<close>,
  \<open>_loss_competition\<close> and \<open>move\<close> call each other: a Hunter placed on an occupied cell
  competes, the loser may move, and its move places it on a cell again. The first
  argument bounds the number of nested competitions; \<open>put_on\<close> spends one unit when it
  starts a competition.
\<close>

function put_on :: "nat \<Rightarrow> env \<Rightarrow> aid \<Rightarrow> cid option \<Rightarrow> world \<Rightarrow> (unit, world) result"
and compete :: "nat \<Rightarrow> env \<Rightarrow> aid \<Rightarrow> aid \<Rightarrow> world \<Rightarrow> (bool, world) result"
and compete_with_hunter :: "nat \<Rightarrow> env \<Rightarrow> aid \<Rightarrow> aid \<Rightarrow> world \<Rightarrow> (bool, world) result"
and compete_with_farmer :: "nat \<Rightarrow> env \<Rightarrow> aid \<Rightarrow> aid \<Rightarrow> world \<Rightarrow> (bool, world) result"
and loss_competition :: "nat \<Rightarrow> env \<Rightarrow> aid \<Rightarrow> aid \<Rightarrow> world \<Rightarrow> (unit, world) result"
and move :: "nat \<Rightarrow> env \<Rightarrow> aid \<Rightarrow> nat \<Rightarrow> world \<Rightarrow> (bool, world) result"
where
  "put_on n E self None w = Ok () (site_put_on self None w)"
| "put_on n E self (Some c) w =
     (let existing_agent =
            (if has_agent w c then Some (hd (agents (patch_of w c))) else None);
          w1 = site_put_on self (Some c) w
      in case existing_agent of
           None \<Rightarrow> Ok () w1
         | Some other \<Rightarrow>
             (case n of
                0 \<Rightarrow> OutOfFuel
              | Suc m \<Rightarrow> returning () (compete m E self other w1)))"
| "compete n E self other w =
     (if breed (actor_of w other) = ''Farmer'' \<or> breed (actor_of w other) = ''RiceFarmer''
      then compete_with_farmer n E self other w
      else if breed (actor_of w other) = ''Hunter''
      then compete_with_hunter n E self other w
      else Raised TypeError w)"
| "compete_with_hunter n E self hunter w =
     (if gsize (actor_of w self) \<ge> gsize (actor_of w hunter)
      then returning True (loss_competition n E self hunter w)
      else returning False (loss_competition n E self self w))"
| "compete_with_farmer n E self farmer w =
     (let power = gsize (actor_of w self) * intensified_coefficient (params w)
      in if power \<ge> gsize (actor_of w farmer)
         then returning True (loss_competition n E self farmer w)
         else returning False (loss_competition n E self self w))"
| "loss_competition n E self loser w =
     (let loss = loss_rate w
      in if breed (actor_of w loser) = ''Farmer'' \<or> breed (actor_of w loser) = ''RiceFarmer''
         then Ok () (die loser w)
         else if breed (actor_of w loser) = ''Hunter''
         then (if is_complex w loser
               then Ok () (die loser w)
               else (let w1 = set_size loser (gsize (actor_of w loser) * loss) w
                     in if on_earth w1 loser
                        then returning () (move n E loser 1 w1)
                        else Ok () w1))
         else Raised TypeError w)"
| "move n E self radius w =
     (if \<not> is_complex w self \<and> on_earth w self
      then (case cell (actor_of w self) of
              None \<Rightarrow> Ok False w
            | Some here \<Rightarrow>
                (case search_a_new_place E self here radius w of
                   Some c \<Rightarrow> returning True (put_on n E self (Some c) w)
                 | None \<Rightarrow> Ok False w))
      else Ok False w)"
  by pat_completeness auto

termination
  by (relation "measure (case_sum
        (case_sum (\<lambda>p. 5 * fst p) (case_sum (\<lambda>p. 5 * fst p + 4) (\<lambda>p. 5 * fst p + 3)))
        (case_sum (\<lambda>p. 5 * fst p + 3) (case_sum (\<lambda>p. 5 * fst p + 2) (\<lambda>p. 5 * fst p + 1))))")
     simp_all

declare put_on.simps [simp del] compete.simps [simp del] compete_with_hunter.simps [simp del]
  compete_with_farmer.simps [simp del] loss_competition.simps [simp del] move.simps [simp del]

section \<open>The legacy Hunter (src/hunter.py)\<close>

text \<open>The legacy competition calls the size setter and \<open>move_to\<close> of the legacy
  \<open>SiteGroup\<close> (src/people.py, not in the given sources); they are parameters.\<close>

record legacy_env =
  legacy_set_size :: "aid \<Rightarrow> real \<Rightarrow> world \<Rightarrow> world"
  legacy_move_to :: "aid \<Rightarrow> world \<Rightarrow> (unit, world) result"

definition legacy_loss_competition ::
  "legacy_env \<Rightarrow> aid \<Rightarrow> aid \<Rightarrow> world \<Rightarrow> (unit, world) result" where
  "legacy_loss_competition L self loser w =
     (let loss = loss_rate w
      in if breed (actor_of w loser) = ''Farmer''
         then Ok () (die loser w)
         else if breed (actor_of w loser) = ''Hunter''
         then (let w1 = legacy_set_size L loser (gsize (actor_of w loser) * loss) w
               in returning () (legacy_move_to L loser w1))
         else Raised TypeError w)"

definition legacy_compete ::
  "legacy_env \<Rightarrow> aid \<Rightarrow> aid \<Rightarrow> world \<Rightarrow> (bool, world) result" where
  "legacy_compete L self other w =
     (let power = gsize (actor_of w self) * intensified_coefficient (params w)
      in if breed (actor_of w other) = ''Farmer'' \<and> power \<ge> gsize (actor_of w other)
            \<or> breed (actor_of w other) \<noteq> ''Farmer''
              \<and> breed (actor_of w other) = ''Hunter''
              \<and> gsize (actor_of w self) \<ge> gsize (actor_of w other)
         then returning True (legacy_loss_competition L self other w)
         else if breed (actor_of w other) \<notin> set [''Farmer'', ''Hunter'']
         then Raised TypeError w
         else returning False (legacy_loss_competition L self self w))"

section \<open>The model (abses\_sce/model.py)\<close>

text \<open>
  \<open>Model.trigger\<close> and \<open>Model.step\<close> only iterate and dispatch: what they use of the
  framework and of the agents is a parameter, over any state \<open>'s\<close> of agents and nature:
  \<open>actor.on_earth\<close>, \<open>self.actors\<close>, \<open>self.agents.select(breed)\<close>,
  \<open>getattr(actor, func)()\<close>, \<open>self.nature.add_farmers()\<close> and
  \<open>array("size").sum()\<close>.
\<close>

record 's scheduler =
  sch_on_earth :: "'s \<Rightarrow> aid \<Rightarrow> bool"
  sch_actors :: "'s \<Rightarrow> aid list"
  sch_select :: "string \<Rightarrow> 's \<Rightarrow> aid list"
  sch_method :: "string \<Rightarrow> aid \<Rightarrow> 's \<Rightarrow> (unit, 's) result"
  sch_add_farmers :: "'s \<Rightarrow> (aid list, 's) result"
  sch_size_sum :: "aid list \<Rightarrow> 's \<Rightarrow> real"

text \<open>The numbers the model records at each step.\<close>

record numbers =
  new_farmers :: "nat list"
  farmers_num :: "real list"
  hunters_num :: "real list"

text \<open>\<open>Model.trigger\<close>: the loop over the actors; an actor that is not on earth when the
  loop reaches it is passed over.\<close>

fun trigger :: "'s scheduler \<Rightarrow> aid list \<Rightarrow> string \<Rightarrow> 's \<Rightarrow> (unit, 's) result" where
  "trigger S [] func s = Ok () s"
| "trigger S (actor # rest) func s =
     (if \<not> sch_on_earth S s actor
      then trigger S rest func s
      else (case sch_method S func actor s of
              Ok u s1 \<Rightarrow> trigger S rest func s1
            | Raised e s1 \<Rightarrow> Raised e s1
            | OutOfFuel \<Rightarrow> OutOfFuel))"

text \<open>\<open>Model.farmers\<close> and \<open>Model.hunters\<close>.\<close>

definition farmers :: "'s scheduler \<Rightarrow> 's \<Rightarrow> aid list" where
  "farmers S s = sch_select S ''Farmer'' s"

definition hunters :: "'s scheduler \<Rightarrow> 's \<Rightarrow> aid list" where
  "hunters S s = sch_select S ''Hunter'' s"

text \<open>\<open>Model.step\<close>: the four phases, then the numbers of the step.\<close>

definition step ::
  "'s scheduler \<Rightarrow> numbers \<Rightarrow> 's \<Rightarrow> (numbers, 's) result" where
  "step S nums s =
     bind (sch_add_farmers S s) (\<lambda>new s0.
     bind (trigger S (sch_actors S s0) ''population_growth'' s0) (\<lambda>u1 s1.
     bind (trigger S (sch_actors S s1) ''convert'' s1) (\<lambda>u2 s2.
     bind (trigger S (sch_actors S s2) ''diffuse'' s2) (\<lambda>u3 s3.
     bind (trigger S (hunters S s3) ''move'' s3) (\<lambda>u4 s4.
       Ok \<lparr>new_farmers = new_farmers nums @ [length new],
           farmers_num = farmers_num nums @ [sch_size_sum S (farmers S s4) s4],
           hunters_num = hunters_num nums @ [sch_size_sum S (hunters S s4) s4]\<rparr> s4)))))"

text \<open>
  To speak of the order of the calls, each call the scheduler makes is recorded next to
  the state: \<open>recording S\<close> is the scheduler \<open>S\<close> whose methods append the name of the method,
  the actor and whether the actor was on earth when the call was made.
\<close>

type_synonym call = "string \<times> aid \<times> bool"

definition with_calls :: "call list \<Rightarrow> ('a, 's) result \<Rightarrow> ('a, 's \<times> call list) result" where
  "with_calls cs r =
     (case r of Ok x s \<Rightarrow> Ok x (s, cs) | Raised e s \<Rightarrow> Raised e (s, cs) | OutOfFuel \<Rightarrow> OutOfFuel)"

definition recording :: "'s scheduler \<Rightarrow> ('s \<times> call list) scheduler" where
  "recording S =
     \<lparr>sch_on_earth = (\<lambda>sc a. sch_on_earth S (fst sc) a),
      sch_actors = (\<lambda>sc. sch_actors S (fst sc)),
      sch_select = (\<lambda>b sc. sch_select S b (fst sc)),
      sch_method = (\<lambda>func a sc.
         with_calls (snd sc @ [(func, a, sch_on_earth S (fst sc) a)])
           (sch_method S func a (fst sc))),
      sch_add_farmers = (\<lambda>sc. with_calls (snd sc) (sch_add_farmers S (fst sc))),
      sch_size_sum = (\<lambda>as sc. sch_size_sum S as (fst sc))\<rparr>"

text \<open>The phase a method belongs to.\<close>

definition phase :: "string \<Rightarrow> nat" where
  "phase func =
     (if func = ''population_growth'' then 0
      else if func = ''convert'' then 1
      else if func = ''diffuse'' then 2
      else 3)"

section \<open>Observations and example worlds\<close>

text \<open>A group that a lost competition does not kill: it is alive, it is not a Farmer or a
  RiceFarmer, and it is not complex.\<close>

definition spared :: "world \<Rightarrow> aid \<Rightarrow> bool" where
  "spared w a =
     (alive (actor_of w a) \<and> \<not> is_complex w a
      \<and> breed (actor_of w a) \<noteq> ''Farmer'' \<and> breed (actor_of w a) \<noteq> ''RiceFarmer'')"




text \<open>A world made of a list of agents and a list of cells, referenced by position.\<close>

definition nobody :: actor where
  "nobody = \<lparr>breed = [], gsize = 0, cell = None, alive = False\<rparr>"

definition bare :: patch where
  "bare = \<lparr>agents = [], lim_h = 0, is_arable = False, is_rice_arable = False\<rparr>"

definition world_of ::
  "actor list \<Rightarrow> patch list \<Rightarrow> hunter_params \<Rightarrow> real \<Rightarrow> (nat \<Rightarrow> real) \<Rightarrow> world" where
  "world_of as ps hp lr ds =
     \<lparr>actor_of = (\<lambda>a. if a < length as then as ! a else nobody),
      patch_of = (\<lambda>c. if c < length ps then ps ! c else bare),
      params = hp, loss_rate = lr, draws = ds, drawn = 0, next_id = length as\<rparr>"

definition demo_params :: hunter_params where
  "demo_params =
     \<lparr>is_complex_size = 100, intensified_coefficient = 6 / 5,
      convert_prob = map_of [(''to_farmer'', 1 / 2), (''to_rice'', 1 / 2)], min_size = 6\<rparr>"

definition field :: "aid list \<Rightarrow> patch" where
  "field as = \<lparr>agents = as, lim_h = 1000, is_arable = True, is_rice_arable = True\<rparr>"

text \<open>Seven groups, each alone on its cell: a Hunter of 500, a Farmer of 400, Hunters of
  80 and of 50, a RiceFarmer of 400, an agent of a breed the competition does not know
  and, on cell 7, a Hunter of 300; cell 6 is empty. Every draw of the random source is
  0.4.\<close>

definition demo_world :: world where
  "demo_world = world_of
     [\<lparr>breed = ''Hunter'', gsize = 500, cell = Some 0, alive = True\<rparr>,
      \<lparr>breed = ''Farmer'', gsize = 400, cell = Some 1, alive = True\<rparr>,
      \<lparr>breed = ''Hunter'', gsize = 80, cell = Some 2, alive = True\<rparr>,
      \<lparr>breed = ''Hunter'', gsize = 50, cell = Some 3, alive = True\<rparr>,
      \<lparr>breed = ''RiceFarmer'', gsize = 400, cell = Some 4, alive = True\<rparr>,
      \<lparr>breed = ''Wolf'', gsize = 10, cell = Some 5, alive = True\<rparr>,
      \<lparr>breed = ''Hunter'', gsize = 300, cell = Some 7, alive = True\<rparr>]
     [field [0], field [1], field [2], field [3], field [4], field [5], bare, field [6]]
     demo_params (1 / 2) (\<lambda>k. 2 / 5)"

text \<open>An environment in which no new place is ever found and no cell has neighbours, and
  one in which the new place is always cell 2 and the neighbours are the cells 1 and 4.\<close>

definition still_env :: env where
  "still_env =
     \<lparr>search_a_new_place = (\<lambda>a c r w. None),
      get_neighboring_cells = (\<lambda>c r m. []),
      site_diffuse = (\<lambda>a g w. Ok None w)\<rparr>"

definition roaming_env :: env where
  "roaming_env =
     \<lparr>search_a_new_place = (\<lambda>a c r w. Some 2),
      get_neighboring_cells = (\<lambda>c r m. [1, 4]),
      site_diffuse = (\<lambda>a g w. Ok None w)\<rparr>"

text \<open>An environment in which the new place is always the empty cell 6.\<close>

definition fleeing_env :: env where
  "fleeing_env =
     \<lparr>search_a_new_place = (\<lambda>a c r w. Some 6),
      get_neighboring_cells = (\<lambda>c r m. []),
      site_diffuse = (\<lambda>a g w. Ok None w)\<rparr>"

text \<open>An environment in which the new place found from cell 3 is cell 1, where the Farmer
  stands, and no new place is found from any other cell.\<close>

definition raiding_env :: env where
  "raiding_env =
     \<lparr>search_a_new_place = (\<lambda>a c r w. if c = 3 then Some 1 else None),
      get_neighboring_cells = (\<lambda>c r m. []),
      site_diffuse = (\<lambda>a g w. Ok None w)\<rparr>"

text \<open>For the legacy Hunter: the size setter above, and a \<open>move_to\<close> that changes
  nothing.\<close>

definition legacy_still :: legacy_env where
  "legacy_still = \<lparr>legacy_set_size = set_size, legacy_move_to = (\<lambda>a w. Ok () w)\<rparr>"

text \<open>The same world with an empty \<open>convert_prob\<close> dictionary.\<close>

definition no_prob_world :: world where
  "no_prob_world = demo_world\<lparr>params := demo_params\<lparr>convert_prob := Map.empty\<rparr>\<rparr>"

text \<open>A small scheduler over three actors 0, 1 and 2, of which 1 is a Farmer and 2 a
  Hunter. Its state is the list of the actors that are on earth; \<open>convert\<close> of actor 0
  takes actor 1 from the earth and every other method changes nothing.\<close>

definition toy_scheduler :: "aid list scheduler" where
  "toy_scheduler =
     \<lparr>sch_on_earth = (\<lambda>s a. a \<in> set s),
      sch_actors = (\<lambda>s. [0, 1, 2]),
      sch_select = (\<lambda>b s. if b = ''Hunter'' then [2] else [1]),
      sch_method = (\<lambda>func a s.
         Ok () (if func = ''convert'' \<and> a = 0 then removeAll 1 s else s)),
      sch_add_farmers = (\<lambda>s. Ok [] s),
      sch_size_sum = (\<lambda>as s. of_nat (length as))\<rparr>"

definition no_numbers :: numbers where
  "no_numbers = \<lparr>new_farmers = [], farmers_num = [], hunters_num = []\<rparr>"

lemmas demo_defs =
  demo_world_def world_of_def demo_params_def field_def still_env_def roaming_env_def
  fleeing_env_def raiding_env_def legacy_still_def nobody_def bare_def no_prob_world_def

section \<open>Frame properties of the base operations\<close>

lemma actor_of_leave_cell [simp]: "actor_of (leave_cell a w) = actor_of w"
  by (simp add: leave_cell_def split: option.splits)

lemma params_leave_cell [simp]: "params (leave_cell a w) = params w"
  by (simp add: leave_cell_def split: option.splits)

lemma actor_of_site_put_on:
  "actor_of (site_put_on a co w) b = (if b = a then (actor_of w a)\<lparr>cell := co\<rparr> else actor_of w b)"
  by (simp add: site_put_on_def Let_def split: option.splits)

lemma params_site_put_on [simp]: "params (site_put_on a co w) = params w"
  by (simp add: site_put_on_def Let_def split: option.splits)

lemma breed_site_put_on [simp]:
  "breed (actor_of (site_put_on a co w) b) = breed (actor_of w b)"
  by (simp add: actor_of_site_put_on)

lemma actor_of_die:
  "actor_of (die a w) b =
     (if b = a then (actor_of w a)\<lparr>cell := None, alive := False\<rparr> else actor_of w b)"
  by (simp add: die_def Let_def)

lemma params_die [simp]: "params (die a w) = params w"
  by (simp add: die_def Let_def)

lemma actor_of_set_size:
  "actor_of (set_size a v w) b =
     (if b = a then (actor_of w a)\<lparr>gsize := clamped_size w a v\<rparr> else actor_of w b)"
  by (simp add: set_size_def)

lemma params_set_size [simp]: "params (set_size a v w) = params w"
  by (simp add: set_size_def)

section \<open>Competition\<close>

text \<open>
  C1. \<open>compete(self, other)\<close> against a Hunter returns true iff
  \<open>self.size >= other.size\<close>, against a Farmer or a RiceFarmer iff
  \<open>self.size * intensified_coefficient >= other.size\<close>; a tie goes to \<open>self\<close>. The call is
  the loss of the losing side and nothing else: of \<open>other\<close> when it returns true, of \<open>self\<close>
  when it returns false; so whenever it returns, the value is the comparison.
\<close>

theorem compete_decides_and_penalises_loser:
  "(breed (actor_of w other) = ''Hunter'' \<longrightarrow>
      compete n E self other w =
        (if gsize (actor_of w self) \<ge> gsize (actor_of w other)
         then returning True (loss_competition n E self other w)
         else returning False (loss_competition n E self self w))
      \<and> (\<forall>won w'. compete n E self other w = Ok won w' \<longrightarrow>
            won = (gsize (actor_of w self) \<ge> gsize (actor_of w other))))
   \<and> (breed (actor_of w other) = ''Farmer'' \<or> breed (actor_of w other) = ''RiceFarmer'' \<longrightarrow>
      compete n E self other w =
        (if gsize (actor_of w self) * intensified_coefficient (params w)
              \<ge> gsize (actor_of w other)
         then returning True (loss_competition n E self other w)
         else returning False (loss_competition n E self self w))
      \<and> (\<forall>won w'. compete n E self other w = Ok won w' \<longrightarrow>
            won = (gsize (actor_of w self) * intensified_coefficient (params w)
                     \<ge> gsize (actor_of w other))))"
  by (auto simp: compete.simps compete_with_hunter.simps compete_with_farmer.simps
        returning_def Let_def split: result.splits if_splits)

theorem compete_decides_and_penalises_loser_witness:
  "breed (actor_of demo_world 1) = ''Farmer''
   \<and> compete 0 still_env 0 1 demo_world = Ok True (die 1 demo_world)
   \<and> breed (actor_of demo_world 2) = ''Hunter''
   \<and> compete 0 still_env 3 2 demo_world = returning False (Ok () (set_size 3 25 demo_world))"
  using compete_decides_and_penalises_loser [where w = demo_world and other = 1 and n = 0
      and E = still_env and self = 0]
    compete_decides_and_penalises_loser [where w = demo_world and other = 2 and n = 0
      and E = still_env and self = 3]
  by (simp add: loss_competition.simps move.simps returning_def is_complex_def on_earth_def
        set_size_def clamped_size_def max_size_def Let_def demo_defs)

text \<open>
  C6. \<open>compete(self, other)\<close> with an \<open>other\<close> whose breed is none of Hunter, Farmer and
  RiceFarmer raises TypeError (the InvalidAgentKind error) in the very state it was
  called in: nothing has been changed. Nothing catches it: a \<open>put_on\<close> onto a cell whose
  first agent is such an \<open>other\<close>, and a \<open>move\<close> that places the Hunter there, raise the
  same error, in the state the placement reached.
\<close>

theorem compete_unknown_breed_raises:
  assumes "breed (actor_of w other) \<noteq> ''Hunter''"
    and "breed (actor_of w other) \<noteq> ''Farmer''"
    and "breed (actor_of w other) \<noteq> ''RiceFarmer''"
  shows "compete n E self other w = Raised TypeError w
    \<and> (agents (patch_of w c) = other # rest \<longrightarrow>
         put_on (Suc n) E self (Some c) w = Raised TypeError (site_put_on self (Some c) w))
    \<and> (agents (patch_of w c) = other # rest \<and> \<not> is_complex w self
         \<and> cell (actor_of w self) = Some here
         \<and> search_a_new_place E self here radius w = Some c \<longrightarrow>
         move (Suc n) E self radius w = Raised TypeError (site_put_on self (Some c) w))"
proof -
  have raised: "compete n E self other (site_put_on self (Some c) w)
      = Raised TypeError (site_put_on self (Some c) w)"
    using assms by (simp add: compete.simps)
  have placed: "put_on (Suc n) E self (Some c) w = Raised TypeError (site_put_on self (Some c) w)"
    if "agents (patch_of w c) = other # rest"
    using that raised by (simp add: put_on.simps has_agent_def returning_def Let_def)
  have "compete n E self other w = Raised TypeError w"
    using assms by (simp add: compete.simps)
  moreover have "move (Suc n) E self radius w = Raised TypeError (site_put_on self (Some c) w)"
    if "agents (patch_of w c) = other # rest" "\<not> is_complex w self"
      "cell (actor_of w self) = Some here" "search_a_new_place E self here radius w = Some c"
    using that placed by (simp add: move.simps returning_def on_earth_def)
  ultimately show ?thesis
    using placed by blast
qed

theorem compete_unknown_breed_raises_witness:
  "breed (actor_of demo_world 5) = ''Wolf''
   \<and> compete 0 still_env 3 5 demo_world = Raised TypeError demo_world
   \<and> agents (patch_of demo_world 5) = [5]
   \<and> put_on 1 still_env 3 (Some 5) demo_world
       = Raised TypeError (site_put_on 3 (Some 5) demo_world)"
proof -
  have wolf: "breed (actor_of demo_world 5) = ''Wolf''"
    and alone: "agents (patch_of demo_world 5) = [5]"
    by (simp_all add: demo_defs)
  show ?thesis
    using compete_unknown_breed_raises [where w = demo_world and other = 5 and n = 0 and E = still_env
        and self = 3 and c = 5 and rest = "[]"] wolf alone
    by simp
qed

section \<open>Diffusion\<close>

text \<open>
  C8. For a Hunter whose size is below \<open>max_size\<close>, \<open>diffuse()\<close> does nothing: it returns no
  new group and the world, hence the parent and its size, is the one it was called in.
  \<open>max_size\<close> is the ceiling of \<open>lim_h\<close> of the cell of a placed Hunter and 100,000,000 for
  an unplaced one.
\<close>

theorem diffuse_below_max_size_is_noop:
  "(gsize (actor_of w self) < max_size w self \<longrightarrow> diffuse E self group_range w = Ok None w)
   \<and> (cell (actor_of w self) = Some c \<longrightarrow> max_size w self = of_int \<lceil>lim_h (patch_of w c)\<rceil>)
   \<and> (\<not> on_earth w self \<longrightarrow> max_size w self = 100000000)"
  by (simp add: diffuse_def max_size_def on_earth_def)

theorem diffuse_below_max_size_is_noop_witness:
  "gsize (actor_of demo_world 0) < max_size demo_world 0
   \<and> diffuse roaming_env 0 None demo_world = Ok None demo_world
   \<and> cell (actor_of demo_world 0) = Some 0 \<and> max_size demo_world 0 = 1000
   \<and> \<not> on_earth (die 0 demo_world) 0 \<and> max_size (die 0 demo_world) 0 = 100000000"
  using diffuse_below_max_size_is_noop [where w = demo_world and self = 0 and E = roaming_env
      and group_range = None and c = 0]
    diffuse_below_max_size_is_noop [where w = "die 0 demo_world" and self = 0]
  by (simp add: on_earth_def actor_of_die demo_defs)

section \<open>Conversion\<close>

text \<open>
  C9. When the \<open>convert_prob\<close> dictionary has no entry for a path (\<open>"to_farmer"\<close>,
  \<open>"to_rice"\<close>), the probability of the path is zero: whatever the neighbours and the
  arability, with a draw that is not negative the path does not convert. For a placed
  Hunter it returns the Hunter itself, in a state that differs from the initial one only
  by the draw taken; for an unplaced Hunter reading the cell fails before anything.
\<close>

theorem missing_convert_prob_never_converts:
  "(convert_prob (params w) ''to_farmer'' = None \<and> 0 \<le> draws w (drawn w) \<longrightarrow>
      convert_to_farmer E self radius moore w =
        (case cell (actor_of w self) of
           None \<Rightarrow> Raised AttributeError w
         | Some c \<Rightarrow> Ok self (w\<lparr>drawn := Suc (drawn w)\<rparr>)))
   \<and> (convert_prob (params w) ''to_rice'' = None \<and> 0 \<le> draws w (drawn w) \<longrightarrow>
      convert_to_rice E self radius moore w =
        (case cell (actor_of w self) of
           None \<Rightarrow> Raised AttributeError w
         | Some c \<Rightarrow> Ok self (w\<lparr>drawn := Suc (drawn w)\<rparr>)))"
  by (simp add: convert_to_farmer_def convert_to_rice_def random_def Let_def
        split: option.splits)

theorem missing_convert_prob_never_converts_witness:
  "convert_prob (params no_prob_world) ''to_farmer'' = None
   \<and> convert_prob (params no_prob_world) ''to_rice'' = None
   \<and> 0 \<le> draws no_prob_world (drawn no_prob_world)
   \<and> cell (actor_of no_prob_world 0) = Some 0
   \<and> convert_to_farmer roaming_env 0 1 False no_prob_world
       = Ok 0 (no_prob_world\<lparr>drawn := Suc (drawn no_prob_world)\<rparr>)
   \<and> convert_to_rice roaming_env 0 1 False no_prob_world
       = Ok 0 (no_prob_world\<lparr>drawn := Suc (drawn no_prob_world)\<rparr>)"
proof -
  have "convert_prob (params no_prob_world) ''to_farmer'' = None"
    and "convert_prob (params no_prob_world) ''to_rice'' = None"
    and "0 \<le> draws no_prob_world (drawn no_prob_world)"
    and "cell (actor_of no_prob_world 0) = Some 0"
    by (simp_all add: demo_defs)
  then show ?thesis
    using missing_convert_prob_never_converts [where w = no_prob_world and self = 0
        and E = roaming_env and radius = 1 and moore = False]
    by simp
qed

lemma has_agent_breed_drawn [simp]:
  "has_agent_breed (w\<lparr>drawn := k\<rparr>) n b = has_agent_breed w n b"
  by (simp add: has_agent_breed_def)

lemma convert_to_farmer_placed:
  assumes "cell (actor_of w self) = Some c"
  shows "convert_to_farmer E self radius moore w =
      (if list_ex (\<lambda>n. has_agent_breed w n ''Farmer'') (get_neighboring_cells E c radius moore)
          \<and> is_arable (patch_of w c)
          \<and> draws w (drawn w)
              < (case convert_prob (params w) ''to_farmer'' of Some p \<Rightarrow> p | None \<Rightarrow> 0)
       then Ok (next_id w) (snd (cell_convert c self ''Farmer'' (w\<lparr>drawn := Suc (drawn w)\<rparr>)))
       else Ok self (w\<lparr>drawn := Suc (drawn w)\<rparr>))"
  using assms
  by (simp add: convert_to_farmer_def random_def cell_convert_def Let_def)

lemma convert_to_rice_placed:
  assumes "cell (actor_of w self) = Some c"
  shows "convert_to_rice E self radius moore w =
      (if list_ex (\<lambda>n. has_agent_breed w n ''RiceFarmer'') (get_neighboring_cells E c radius moore)
          \<and> is_rice_arable (patch_of w c)
          \<and> draws w (drawn w)
              < (case convert_prob (params w) ''to_rice'' of Some p \<Rightarrow> p | None \<Rightarrow> 0)
       then Ok (next_id w) (snd (cell_convert c self ''RiceFarmer'' (w\<lparr>drawn := Suc (drawn w)\<rparr>)))
       else Ok self (w\<lparr>drawn := Suc (drawn w)\<rparr>))"
  using assms
  by (simp add: convert_to_rice_def random_def cell_convert_def Let_def)

lemma next_id_cell_convert: "next_id (snd (cell_convert c a b w)) = Suc (next_id w)"
  by (simp add: cell_convert_def Let_def die_def leave_cell_def split: option.splits)

text \<open>
  C3. \<open>convert()\<close> of a placed Hunter (whose reference is in use, not the next unused
  one) evaluates the farmer path first, with the draw number \<open>drawn\<close>. If that path converts, the result is the new Farmer and the rice path is
  not evaluated: one draw has been taken. Otherwise the rice path is evaluated with the
  next draw, number \<open>drawn + 1\<close>; it either converts to a new RiceFarmer or returns the
  Hunter itself, in a state that differs from the initial one only by the two draws
  taken. At most one new entity is made by a call.
\<close>

theorem convert_farmer_path_then_rice_path:
  assumes "cell (actor_of w self) = Some c" and "self \<noteq> next_id w"
  shows "convert E self radius moore w =
      (if list_ex (\<lambda>n. has_agent_breed w n ''Farmer'') (get_neighboring_cells E c radius moore)
          \<and> is_arable (patch_of w c)
          \<and> draws w (drawn w)
              < (case convert_prob (params w) ''to_farmer'' of Some p \<Rightarrow> p | None \<Rightarrow> 0)
       then Ok (next_id w) (snd (cell_convert c self ''Farmer'' (w\<lparr>drawn := Suc (drawn w)\<rparr>)))
       else if list_ex (\<lambda>n. has_agent_breed w n ''RiceFarmer'')
                 (get_neighboring_cells E c radius moore)
          \<and> is_rice_arable (patch_of w c)
          \<and> draws w (Suc (drawn w))
              < (case convert_prob (params w) ''to_rice'' of Some p \<Rightarrow> p | None \<Rightarrow> 0)
       then Ok (next_id w)
              (snd (cell_convert c self ''RiceFarmer'' (w\<lparr>drawn := Suc (Suc (drawn w))\<rparr>)))
       else Ok self (w\<lparr>drawn := Suc (Suc (drawn w))\<rparr>))
    \<and> (\<forall>agent w'. convert E self radius moore w = Ok agent w' \<longrightarrow>
          next_id w' \<le> Suc (next_id w)
          \<and> (agent = self \<longrightarrow> actor_of w' = actor_of w \<and> patch_of w' = patch_of w))"
proof -
  let ?farmer = "list_ex (\<lambda>n. has_agent_breed w n ''Farmer'') (get_neighboring_cells E c radius moore)
          \<and> is_arable (patch_of w c)
          \<and> draws w (drawn w)
              < (case convert_prob (params w) ''to_farmer'' of Some p \<Rightarrow> p | None \<Rightarrow> 0)"
  let ?rice = "list_ex (\<lambda>n. has_agent_breed w n ''RiceFarmer'')
                 (get_neighboring_cells E c radius moore)
          \<and> is_rice_arable (patch_of w c)
          \<and> draws w (Suc (drawn w))
              < (case convert_prob (params w) ''to_rice'' of Some p \<Rightarrow> p | None \<Rightarrow> 0)"
  have placed: "cell (actor_of (w\<lparr>drawn := Suc (drawn w)\<rparr>) self) = Some c"
    using assms(1) by simp
  have closed: "convert E self radius moore w =
      (if ?farmer
       then Ok (next_id w) (snd (cell_convert c self ''Farmer'' (w\<lparr>drawn := Suc (drawn w)\<rparr>)))
       else if ?rice
       then Ok (next_id w)
              (snd (cell_convert c self ''RiceFarmer'' (w\<lparr>drawn := Suc (Suc (drawn w))\<rparr>)))
       else Ok self (w\<lparr>drawn := Suc (Suc (drawn w))\<rparr>))"
    unfolding convert_def convert_to_farmer_placed [OF assms(1)]
    using assms(2) by (simp add: convert_to_rice_placed [OF placed])
  have after: "next_id w' \<le> Suc (next_id w)
      \<and> (agent = self \<longrightarrow> actor_of w' = actor_of w \<and> patch_of w' = patch_of w)"
    if ok: "convert E self radius moore w = Ok agent w'" for agent w'
  proof (cases ?farmer)
    case True
    have "convert E self radius moore w
        = Ok (next_id w) (snd (cell_convert c self ''Farmer'' (w\<lparr>drawn := Suc (drawn w)\<rparr>)))"
      unfolding closed using True by (rule if_P)
    with ok have "agent = next_id w"
      and "w' = snd (cell_convert c self ''Farmer'' (w\<lparr>drawn := Suc (drawn w)\<rparr>))"
      by simp_all
    then show ?thesis
      using assms(2) by (simp add: next_id_cell_convert)
  next
    case no_farmer: False
    show ?thesis
    proof (cases ?rice)
      case True
      have "convert E self radius moore w
          = Ok (next_id w)
              (snd (cell_convert c self ''RiceFarmer'' (w\<lparr>drawn := Suc (Suc (drawn w))\<rparr>)))"
        unfolding closed by (simp only: if_not_P [OF no_farmer] if_P [OF True])
      with ok have "agent = next_id w"
        and "w' = snd (cell_convert c self ''RiceFarmer'' (w\<lparr>drawn := Suc (Suc (drawn w))\<rparr>))"
        by simp_all
      then show ?thesis
        using assms(2) by (simp add: next_id_cell_convert)
    next
      case no_rice: False
      have "convert E self radius moore w = Ok self (w\<lparr>drawn := Suc (Suc (drawn w))\<rparr>)"
        unfolding closed by (simp only: if_not_P [OF no_farmer] if_not_P [OF no_rice])
      with ok have "w' = w\<lparr>drawn := Suc (Suc (drawn w))\<rparr>"
        by simp
      then show ?thesis
        by simp
    qed
  qed
  from closed after show ?thesis
    by blast
qed

theorem convert_farmer_path_then_rice_path_witness:
  "cell (actor_of demo_world 0) = Some 0 \<and> 0 \<noteq> next_id demo_world
   \<and> convert roaming_env 0 1 False demo_world
       = Ok 7 (snd (cell_convert 0 0 ''Farmer'' (demo_world\<lparr>drawn := Suc (drawn demo_world)\<rparr>)))
   \<and> cell (actor_of no_prob_world 0) = Some 0 \<and> 0 \<noteq> next_id no_prob_world
   \<and> convert roaming_env 0 1 False no_prob_world
       = Ok 0 (no_prob_world\<lparr>drawn := Suc (Suc (drawn no_prob_world))\<rparr>)"
proof -
  have placed: "cell (actor_of demo_world 0) = Some 0"
    and other: "0 \<noteq> next_id demo_world"
    and new: "next_id demo_world = 7"
    and placed': "cell (actor_of no_prob_world 0) = Some 0"
    and other': "0 \<noteq> next_id no_prob_world"
    by (simp_all add: demo_defs)
  have farmer: "list_ex (\<lambda>n. has_agent_breed demo_world n ''Farmer'')
        (get_neighboring_cells roaming_env 0 1 False)
      \<and> is_arable (patch_of demo_world 0)
      \<and> draws demo_world (drawn demo_world)
          < (case convert_prob (params demo_world) ''to_farmer'' of Some p \<Rightarrow> p | None \<Rightarrow> 0)"
    by (simp add: has_agent_breed_def demo_defs)
  have no_farmer: "\<not> (list_ex (\<lambda>n. has_agent_breed no_prob_world n ''Farmer'')
        (get_neighboring_cells roaming_env 0 1 False)
      \<and> is_arable (patch_of no_prob_world 0)
      \<and> draws no_prob_world (drawn no_prob_world)
          < (case convert_prob (params no_prob_world) ''to_farmer'' of Some p \<Rightarrow> p | None \<Rightarrow> 0))"
    and no_rice: "\<not> (list_ex (\<lambda>n. has_agent_breed no_prob_world n ''RiceFarmer'')
        (get_neighboring_cells roaming_env 0 1 False)
      \<and> is_rice_arable (patch_of no_prob_world 0)
      \<and> draws no_prob_world (Suc (drawn no_prob_world))
          < (case convert_prob (params no_prob_world) ''to_rice'' of Some p \<Rightarrow> p | None \<Rightarrow> 0))"
    by (simp_all add: demo_defs)
  have "convert roaming_env 0 1 False demo_world
       = Ok 7 (snd (cell_convert 0 0 ''Farmer'' (demo_world\<lparr>drawn := Suc (drawn demo_world)\<rparr>)))"
    using convert_farmer_path_then_rice_path [where w = demo_world and self = 0 and c = 0
        and E = roaming_env and radius = 1 and moore = False, OF placed other]
    by (simp only: if_P [OF farmer] new)
  moreover have "convert roaming_env 0 1 False no_prob_world
       = Ok 0 (no_prob_world\<lparr>drawn := Suc (Suc (drawn no_prob_world))\<rparr>)"
    using convert_farmer_path_then_rice_path [where w = no_prob_world and self = 0 and c = 0
        and E = roaming_env and radius = 1 and moore = False, OF placed' other']
    by (simp only: if_not_P [OF no_farmer] if_not_P [OF no_rice])
  ultimately show ?thesis
    using placed other placed' other' by simp
qed

section \<open>The loss of a competition\<close>

lemma spared_site_put_on:
  assumes "spared w a" and "self = a \<longrightarrow> on_earth w a"
  shows "spared (site_put_on self co w) a"
  using assms
  by (auto simp: spared_def is_complex_def on_earth_def actor_of_site_put_on)

lemma spared_other_die: "spared w a \<Longrightarrow> a \<noteq> l \<Longrightarrow> spared (die l w) a"
  by (auto simp: spared_def is_complex_def on_earth_def actor_of_die)

lemma spared_other_set_size: "spared w a \<Longrightarrow> a \<noteq> l \<Longrightarrow> spared (set_size l v w) a"
  by (auto simp: spared_def is_complex_def on_earth_def actor_of_set_size)

lemma returning_Ok: "returning v r = Ok x s \<longleftrightarrow> x = v \<and> (\<exists>y. r = Ok y s)"
  by (cases r) (auto simp: returning_def)

lemma move_keeps_alive:
  assumes put: "\<And>self co w u w'. spared w a \<Longrightarrow> self = a \<longrightarrow> on_earth w a \<Longrightarrow>
      put_on n E self co w = Ok u w' \<Longrightarrow> alive (actor_of w' a)"
    and "alive (actor_of w a)" and "breed (actor_of w a) \<noteq> ''Farmer''"
    and "breed (actor_of w a) \<noteq> ''RiceFarmer''" and "a \<noteq> self \<longrightarrow> \<not> is_complex w a"
    and "move n E self radius w = Ok moved w'"
  shows "alive (actor_of w' a)"
proof (cases "\<not> is_complex w self \<and> on_earth w self")
  case False
  then have "w' = w"
    using assms(6) by (auto simp: move.simps)
  then show ?thesis
    using assms(2) by simp
next
  case True
  then obtain here where here: "cell (actor_of w self) = Some here"
    by (auto simp: on_earth_def)
  have sp: "spared w a"
    using True assms(2-5) by (auto simp: spared_def)
  show ?thesis
  proof (cases "search_a_new_place E self here radius w")
    case None
    then have "w' = w"
      using assms(6) True here by (simp add: move.simps)
    then show ?thesis
      using assms(2) by simp
  next
    case (Some c)
    then obtain u where placed: "put_on n E self (Some c) w = Ok u w'"
      using assms(6) True here by (auto simp: move.simps returning_Ok)
    have "self = a \<longrightarrow> on_earth w a"
      using True by blast
    from put [OF sp this placed] show ?thesis .
  qed
qed

lemma loss_keeps_alive:
  assumes mv: "\<And>self radius w moved w'. alive (actor_of w a) \<Longrightarrow>
      breed (actor_of w a) \<noteq> ''Farmer'' \<Longrightarrow> breed (actor_of w a) \<noteq> ''RiceFarmer'' \<Longrightarrow>
      a \<noteq> self \<longrightarrow> \<not> is_complex w a \<Longrightarrow>
      move n E self radius w = Ok moved w' \<Longrightarrow> alive (actor_of w' a)"
    and sp: "spared w a"
    and ok: "loss_competition n E self loser w = Ok u w'"
  shows "alive (actor_of w' a)"
proof -
  consider (farmer) "breed (actor_of w loser) = ''Farmer'' \<or> breed (actor_of w loser) = ''RiceFarmer''"
    | (settled) "breed (actor_of w loser) \<noteq> ''Farmer''" "breed (actor_of w loser) \<noteq> ''RiceFarmer''"
        "breed (actor_of w loser) = ''Hunter''" "is_complex w loser"
    | (mobile) "breed (actor_of w loser) \<noteq> ''Farmer''" "breed (actor_of w loser) \<noteq> ''RiceFarmer''"
        "breed (actor_of w loser) = ''Hunter''" "\<not> is_complex w loser"
    | (unknown) "breed (actor_of w loser) \<noteq> ''Farmer''" "breed (actor_of w loser) \<noteq> ''RiceFarmer''"
        "breed (actor_of w loser) \<noteq> ''Hunter''"
    by blast
  then show ?thesis
  proof cases
    case farmer
    then have "w' = die loser w" and "a \<noteq> loser"
      using ok sp by (auto simp: loss_competition.simps spared_def)
    then show ?thesis
      using sp by (simp add: actor_of_die spared_def)
  next
    case settled
    then have "w' = die loser w" and "a \<noteq> loser"
      using ok sp by (auto simp: loss_competition.simps spared_def)
    then show ?thesis
      using sp by (simp add: actor_of_die spared_def)
  next
    case mobile
    define w1 where "w1 = set_size loser (gsize (actor_of w loser) * loss_rate w) w"
    have a1: "alive (actor_of w1 a)" "breed (actor_of w1 a) \<noteq> ''Farmer''"
      "breed (actor_of w1 a) \<noteq> ''RiceFarmer''" "a \<noteq> loser \<longrightarrow> \<not> is_complex w1 a"
      using sp by (auto simp: w1_def spared_def actor_of_set_size is_complex_def on_earth_def)
    have run: "(if on_earth w1 loser then returning () (move n E loser 1 w1) else Ok () w1) = Ok u w'"
      using ok mobile
      by (auto simp: loss_competition.simps Let_def w1_def simp del: One_nat_def split: if_splits)
    show ?thesis
    proof (cases "on_earth w1 loser")
      case True
      then obtain moved where "move n E loser 1 w1 = Ok moved w'"
        using run by (auto simp: returning_Ok)
      then show ?thesis
        using mv a1 by blast
    next
      case False
      then have "w' = w1"
        using run by simp
      then show ?thesis
        using a1 by simp
    qed
  next
    case unknown
    then show ?thesis
      using ok by (simp add: loss_competition.simps)
  qed
qed

lemma compete_keeps_alive:
  assumes loss: "\<And>self loser w u w'. spared w a \<Longrightarrow>
      loss_competition n E self loser w = Ok u w' \<Longrightarrow> alive (actor_of w' a)"
    and sp: "spared w a"
    and ok: "compete n E self other w = Ok won w'"
  shows "alive (actor_of w' a)"
  using ok loss [OF sp]
  by (auto simp: compete.simps compete_with_hunter.simps compete_with_farmer.simps Let_def
        returning_Ok split: if_splits)

lemma put_on_keeps_alive:
  "spared w a \<Longrightarrow> self = a \<longrightarrow> on_earth w a \<Longrightarrow> put_on n E self co w = Ok u w' \<Longrightarrow>
   alive (actor_of w' a)"
proof (induction n arbitrary: w self co u w')
  case 0
  then show ?case
    by (cases co)
      (auto simp: put_on.simps has_agent_def Let_def spared_def actor_of_site_put_on
         split: if_splits)
next
  case (Suc n)
  have mv: "alive (actor_of w' a)"
    if "alive (actor_of w a)" "breed (actor_of w a) \<noteq> ''Farmer''"
      "breed (actor_of w a) \<noteq> ''RiceFarmer''" "a \<noteq> self \<longrightarrow> \<not> is_complex w a"
      "move n E self radius w = Ok moved w'" for self radius w moved w'
    using move_keeps_alive [where n = n and E = E and a = a] Suc.IH that by blast
  have loss: "alive (actor_of w' a)"
    if "spared w a" "loss_competition n E self loser w = Ok u w'" for self loser w u w'
    using loss_keeps_alive [where n = n and E = E and a = a] mv that by blast
  have comp: "alive (actor_of w' a)"
    if "spared w a" "compete n E self other w = Ok won w'" for self other w won w'
    using compete_keeps_alive [where n = n and E = E and a = a] loss that by blast
  show ?case
  proof (cases co)
    case None
    then show ?thesis
      using Suc.prems by (auto simp: put_on.simps has_agent_def spared_def actor_of_site_put_on)
  next
    case (Some c)
    have sp1: "spared (site_put_on self (Some c) w) a"
      using Suc.prems(1,2) by (rule spared_site_put_on)
    show ?thesis
    proof (cases "agents (patch_of w c)")
      case Nil
      then have "w' = site_put_on self (Some c) w"
        using Suc.prems(3) Some by (simp add: put_on.simps has_agent_def Let_def)
      then show ?thesis
        using sp1 by (simp add: spared_def)
    next
      case (Cons other rest)
      then obtain won where "compete n E self other (site_put_on self (Some c) w) = Ok won w'"
        using Suc.prems(3) Some by (auto simp: put_on.simps has_agent_def Let_def returning_Ok)
      then show ?thesis
        using comp sp1 by blast
    qed
  qed
qed

lemma loss_competition_keeps_alive:
  assumes "spared w a" and "loss_competition n E self loser w = Ok u w'"
  shows "alive (actor_of w' a)"
proof -
  have "alive (actor_of w' a)"
    if "alive (actor_of w a)" "breed (actor_of w a) \<noteq> ''Farmer''"
      "breed (actor_of w a) \<noteq> ''RiceFarmer''" "a \<noteq> self \<longrightarrow> \<not> is_complex w a"
      "move n E self radius w = Ok moved w'" for self radius w moved w'
    using move_keeps_alive [where n = n and E = E and a = a] put_on_keeps_alive that by blast
  then show ?thesis
    using loss_keeps_alive [where n = n and E = E and a = a] assms by blast
qed

lemma dead_after_die [simp]: "\<not> alive (actor_of (die a w) a)"
  by (simp add: actor_of_die)

text \<open>
  C2. The loss of a competition: a Farmer or RiceFarmer loser dies; a Hunter loser that
  is complex dies; the size of a Hunter loser that is not complex is set to its size
  times \<open>loss_rate\<close> (through the size setter) and, if the loser is on earth after that,
  \<open>move\<close> is called on it once, with its result dropped. So whenever the call returns, a
  Farmer or RiceFarmer loser is dead, and a Hunter loser that was alive is dead iff it
  was complex before the loss.
\<close>

theorem loss_competition_penalty:
  "(breed (actor_of w loser) = ''Farmer'' \<or> breed (actor_of w loser) = ''RiceFarmer'' \<longrightarrow>
      loss_competition n E self loser w = Ok () (die loser w))
   \<and> (breed (actor_of w loser) = ''Hunter'' \<and> is_complex w loser \<longrightarrow>
      loss_competition n E self loser w = Ok () (die loser w))
   \<and> (breed (actor_of w loser) = ''Hunter'' \<and> \<not> is_complex w loser \<longrightarrow>
      loss_competition n E self loser w =
        (if on_earth (set_size loser (gsize (actor_of w loser) * loss_rate w) w) loser
         then returning ()
                (move n E loser 1 (set_size loser (gsize (actor_of w loser) * loss_rate w) w))
         else Ok () (set_size loser (gsize (actor_of w loser) * loss_rate w) w)))
   \<and> \<not> alive (actor_of (die loser w) loser)
   \<and> (\<forall>u w'. loss_competition n E self loser w = Ok u w'
        \<and> (breed (actor_of w loser) = ''Farmer'' \<or> breed (actor_of w loser) = ''RiceFarmer'') \<longrightarrow>
        \<not> alive (actor_of w' loser))
   \<and> (\<forall>u w'. loss_competition n E self loser w = Ok u w'
        \<and> breed (actor_of w loser) = ''Hunter'' \<and> alive (actor_of w loser) \<longrightarrow>
        (\<not> alive (actor_of w' loser) \<longleftrightarrow> is_complex w loser))"
proof -
  have farmer: "loss_competition n E self loser w = Ok () (die loser w)"
    if "breed (actor_of w loser) = ''Farmer'' \<or> breed (actor_of w loser) = ''RiceFarmer''"
    using that by (auto simp: loss_competition.simps)
  have settled: "loss_competition n E self loser w = Ok () (die loser w)"
    if "breed (actor_of w loser) = ''Hunter''" "is_complex w loser"
    using that by (simp add: loss_competition.simps)
  have mobile: "loss_competition n E self loser w =
        (if on_earth (set_size loser (gsize (actor_of w loser) * loss_rate w) w) loser
         then returning ()
                (move n E loser 1 (set_size loser (gsize (actor_of w loser) * loss_rate w) w))
         else Ok () (set_size loser (gsize (actor_of w loser) * loss_rate w) w))"
    if "breed (actor_of w loser) = ''Hunter''" "\<not> is_complex w loser"
    using that by (simp add: loss_competition.simps Let_def del: One_nat_def)
  have dead_farmer: "\<not> alive (actor_of w' loser)"
    if "loss_competition n E self loser w = Ok u w'"
      "breed (actor_of w loser) = ''Farmer'' \<or> breed (actor_of w loser) = ''RiceFarmer''"
    for u w'
    using that farmer by auto
  have hunter: "\<not> alive (actor_of w' loser) \<longleftrightarrow> is_complex w loser"
    if ok: "loss_competition n E self loser w = Ok u w'"
      and h: "breed (actor_of w loser) = ''Hunter''" and live: "alive (actor_of w loser)"
    for u w'
  proof (cases "is_complex w loser")
    case True
    then show ?thesis
      using ok settled [OF h] by auto
  next
    case False
    then have "spared w loser"
      using h live by (simp add: spared_def)
    then have "alive (actor_of w' loser)"
      using ok by (rule loss_competition_keeps_alive)
    then show ?thesis
      using False by simp
  qed
  show ?thesis
    by (intro conjI impI allI; (elim conjE)?;
        (rule dead_after_die | (rule farmer settled mobile dead_farmer hunter; assumption)))
qed

theorem loss_competition_penalty_witness:
  "breed (actor_of demo_world 1) = ''Farmer''
   \<and> loss_competition 0 still_env 0 1 demo_world = Ok () (die 1 demo_world)
   \<and> breed (actor_of demo_world 0) = ''Hunter'' \<and> is_complex demo_world 0
   \<and> loss_competition 0 still_env 0 0 demo_world = Ok () (die 0 demo_world)
   \<and> breed (actor_of demo_world 3) = ''Hunter'' \<and> \<not> is_complex demo_world 3
   \<and> alive (actor_of demo_world 3)
   \<and> loss_competition 0 fleeing_env 2 3 demo_world
       = Ok () (site_put_on 3 (Some 6) (set_size 3 25 demo_world))
   \<and> alive (actor_of (site_put_on 3 (Some 6) (set_size 3 25 demo_world)) 3)"
proof -
  have farmer: "breed (actor_of demo_world 1) = ''Farmer''"
    and settled: "breed (actor_of demo_world 0) = ''Hunter''" "is_complex demo_world 0"
    and mobile: "breed (actor_of demo_world 3) = ''Hunter''" "\<not> is_complex demo_world 3"
      "alive (actor_of demo_world 3)"
    by (simp_all add: is_complex_def on_earth_def demo_defs)
  have size: "gsize (actor_of demo_world 3) * loss_rate demo_world = 25"
    by (simp add: demo_defs)
  have run: "loss_competition 0 fleeing_env 2 3 demo_world
       = Ok () (site_put_on 3 (Some 6) (set_size 3 25 demo_world))"
    by (simp add: loss_competition.simps move.simps put_on.simps has_agent_def returning_def Let_def
          is_complex_def on_earth_def set_size_def clamped_size_def max_size_def demo_defs)
  show ?thesis
    using loss_competition_penalty [where w = demo_world and loser = 1 and n = 0
        and E = still_env and self = 0]
      loss_competition_penalty [where w = demo_world and loser = 0 and n = 0
        and E = still_env and self = 0]
      loss_competition_penalty [where w = demo_world and loser = 3 and n = 0
        and E = fleeing_env and self = 2]
      farmer settled mobile run
    by simp
qed

section \<open>Placement on an occupied cell\<close>

lemma agents_site_put_on:
  "agents (patch_of (site_put_on a (Some c) w) c) =
     (if cell (actor_of w a) = Some c then removeAll a (agents (patch_of w c))
      else agents (patch_of w c)) @ [a]"
  by (simp add: site_put_on_def leave_cell_def Let_def split: option.splits)


lemma compete_Ok_loss:
  "compete n E self other w = Ok won w' \<Longrightarrow>
   loss_competition n E self (if won then other else self) w = Ok () w'"
  by (auto simp: compete.simps compete_with_hunter.simps compete_with_farmer.simps Let_def
        returning_Ok split: if_splits)

lemma loss_competition_dies:
  "breed (actor_of w l) = ''Farmer'' \<or> breed (actor_of w l) = ''RiceFarmer''
     \<or> breed (actor_of w l) = ''Hunter'' \<and> is_complex w l \<Longrightarrow>
   loss_competition n E self l w = Ok () (die l w)"
  by (auto simp: loss_competition.simps)




section \<open>The legacy competition and the current one\<close>

text \<open>
  C10, as the code has it. For an \<open>other\<close> that is a Hunter or a Farmer the legacy
  \<open>compete\<close> and the current one decide the same winner and penalise the same side; a
  Farmer loser is killed by both; for a breed that is none of Hunter, Farmer and
  RiceFarmer both raise TypeError in the unchanged state.
\<close>

theorem legacy_compete_agrees_on_hunter_and_farmer:
  "(breed (actor_of w other) = ''Hunter'' \<or> breed (actor_of w other) = ''Farmer'' \<longrightarrow>
      (let won = (if breed (actor_of w other) = ''Farmer''
                  then gsize (actor_of w self) * intensified_coefficient (params w)
                         \<ge> gsize (actor_of w other)
                  else gsize (actor_of w self) \<ge> gsize (actor_of w other));
           loser = (if won then other else self)
       in legacy_compete L self other w = returning won (legacy_loss_competition L self loser w)
          \<and> compete n E self other w = returning won (loss_competition n E self loser w)))
   \<and> (breed (actor_of w loser) = ''Farmer'' \<longrightarrow>
        legacy_loss_competition L self loser w = Ok () (die loser w)
        \<and> loss_competition n E self loser w = Ok () (die loser w))
   \<and> (breed (actor_of w other) \<noteq> ''Hunter'' \<and> breed (actor_of w other) \<noteq> ''Farmer''
        \<and> breed (actor_of w other) \<noteq> ''RiceFarmer'' \<longrightarrow>
        legacy_compete L self other w = Raised TypeError w
        \<and> compete n E self other w = Raised TypeError w)"
  by (auto simp: legacy_compete_def legacy_loss_competition_def compete.simps
        compete_with_hunter.simps compete_with_farmer.simps loss_competition.simps Let_def)

theorem legacy_compete_agrees_on_hunter_and_farmer_witness:
  "breed (actor_of demo_world 1) = ''Farmer''
   \<and> legacy_compete legacy_still 0 1 demo_world = Ok True (die 1 demo_world)
   \<and> compete 0 still_env 0 1 demo_world = Ok True (die 1 demo_world)
   \<and> breed (actor_of demo_world 5) \<noteq> ''Hunter'' \<and> breed (actor_of demo_world 5) \<noteq> ''Farmer''
   \<and> breed (actor_of demo_world 5) \<noteq> ''RiceFarmer''
   \<and> legacy_compete legacy_still 0 5 demo_world = Raised TypeError demo_world
   \<and> compete 0 still_env 0 5 demo_world = Raised TypeError demo_world"
proof -
  have farmer: "breed (actor_of demo_world 1) = ''Farmer''"
    and wolf: "breed (actor_of demo_world 5) = ''Wolf''"
    and sizes: "gsize (actor_of demo_world 0) = 500" "gsize (actor_of demo_world 1) = 400"
      "intensified_coefficient (params demo_world) = 6 / 5"
    by (simp_all add: demo_defs)
  show ?thesis
    using legacy_compete_agrees_on_hunter_and_farmer [where w = demo_world and other = 1
        and self = 0 and L = legacy_still and n = 0 and E = still_env and loser = 1]
      legacy_compete_agrees_on_hunter_and_farmer [where w = demo_world and other = 5
        and self = 0 and L = legacy_still and n = 0 and E = still_env]
      farmer wolf sizes
    by (simp add: returning_def Let_def)
qed

text \<open>The claim as stated fails twice: against a RiceFarmer the legacy \<open>compete\<close> raises
  where the current one wins and kills it; a complex Hunter loser is killed by the
  current one and only halved by the legacy one.\<close>

theorem legacy_compete_differs:
  "legacy_compete legacy_still 0 4 demo_world = Raised TypeError demo_world
   \<and> compete 0 still_env 0 4 demo_world = Ok True (die 4 demo_world)
   \<and> is_complex demo_world 6
   \<and> legacy_compete legacy_still 0 6 demo_world = Ok True (set_size 6 150 demo_world)
   \<and> alive (actor_of (set_size 6 150 demo_world) 6)
   \<and> compete 0 still_env 0 6 demo_world = Ok True (die 6 demo_world)
   \<and> \<not> alive (actor_of (die 6 demo_world) 6)"
proof -
  have breeds: "breed (actor_of demo_world 4) = ''RiceFarmer''"
    "breed (actor_of demo_world 6) = ''Hunter''"
    and sizes: "gsize (actor_of demo_world 0) = 500" "gsize (actor_of demo_world 4) = 400"
      "gsize (actor_of demo_world 6) = 300" "300 * loss_rate demo_world = 150"
      "intensified_coefficient (params demo_world) = 6 / 5"
    and settled: "is_complex demo_world 6"
    and live: "alive (actor_of demo_world 6)"
    by (simp_all add: is_complex_def on_earth_def demo_defs)
  have "legacy_compete legacy_still 0 4 demo_world = Raised TypeError demo_world"
    using breeds sizes by (simp add: legacy_compete_def Let_def)
  moreover have "compete 0 still_env 0 4 demo_world = Ok True (die 4 demo_world)"
    using breeds sizes
    by (simp add: compete.simps compete_with_farmer.simps loss_competition.simps returning_def
          Let_def)
  moreover have "legacy_compete legacy_still 0 6 demo_world = Ok True (set_size 6 150 demo_world)"
    by (simp add: legacy_compete_def legacy_loss_competition_def returning_def Let_def
          legacy_still_def breeds sizes)
  moreover have "compete 0 still_env 0 6 demo_world = Ok True (die 6 demo_world)"
    using breeds sizes settled
    by (simp add: compete.simps compete_with_hunter.simps loss_competition.simps returning_def
          Let_def)
  moreover have "alive (actor_of (set_size 6 150 demo_world) 6)"
    using live by (simp add: actor_of_set_size)
  ultimately show ?thesis
    using settled by simp
qed

section \<open>The phases of a step\<close>

lemma bind_Ok: "bind r f = Ok x s \<longleftrightarrow> (\<exists>y t. r = Ok y t \<and> f y t = Ok x s)"
  by (cases r) (auto simp: bind_def)

lemma with_calls_Ok: "with_calls cs r = Ok x sc \<longleftrightarrow> (\<exists>s. r = Ok x s \<and> sc = (s, cs))"
  by (cases r) (auto simp: with_calls_def)

lemma recording_simps [simp]:
  "sch_on_earth (recording S) sc a = sch_on_earth S (fst sc) a"
  "sch_actors (recording S) sc = sch_actors S (fst sc)"
  "sch_select (recording S) b sc = sch_select S b (fst sc)"
  "sch_method (recording S) func a sc =
     with_calls (snd sc @ [(func, a, sch_on_earth S (fst sc) a)]) (sch_method S func a (fst sc))"
  "sch_add_farmers (recording S) sc = with_calls (snd sc) (sch_add_farmers S (fst sc))"
  "sch_size_sum (recording S) as sc = sch_size_sum S as (fst sc)"
  by (simp_all add: recording_def)

lemma trigger_recording:
  "trigger (recording S) as func (s, cs) = Ok u (s', cs') \<Longrightarrow>
   trigger S as func s = Ok u s'
   \<and> (\<exists>ks. cs' = cs @ ks \<and> (\<forall>k\<in>set ks. fst k = func \<and> snd (snd k)))"
proof (induction as arbitrary: s cs)
  case Nil
  then show ?case by simp
next
  case (Cons a as)
  show ?case
  proof (cases "sch_on_earth S s a")
    case False
    then show ?thesis
      using Cons.prems Cons.IH [of s cs] by simp
  next
    case True
    then obtain v s1 where call: "sch_method S func a s = Ok v s1"
      and rest: "trigger (recording S) as func (s1, cs @ [(func, a, True)]) = Ok u (s', cs')"
      using Cons.prems
      by (cases "sch_method S func a s") (auto simp: with_calls_def)
    from Cons.IH [OF rest] obtain ks where "trigger S as func s1 = Ok u s'"
      and "cs' = (cs @ [(func, a, True)]) @ ks" and "\<forall>k\<in>set ks. fst k = func \<and> snd (snd k)"
      by blast
    then have "trigger S (a # as) func s = Ok u s'"
      and "cs' = cs @ ((func, a, True) # ks)"
      and "\<forall>k\<in>set ((func, a, True) # ks). fst k = func \<and> snd (snd k)"
      using True call by simp_all
    then show ?thesis
      by blast
  qed
qed

lemma sorted_map_constant: "\<forall>x\<in>set xs. f x = (c::nat) \<Longrightarrow> sorted (map f xs)"
  by (induction xs) auto

lemma calls_of_one_method:
  "\<forall>k\<in>set ks. fst k = func \<and> snd (snd k) \<Longrightarrow>
   ks = map (\<lambda>a. (func, a, True)) (map (\<lambda>k. fst (snd k)) ks)"
  by (induction ks) auto

text \<open>
  C4. In a step, every call of \<open>population_growth\<close> is made before every call of
  \<open>convert\<close>, those before every call of \<open>diffuse\<close>, and those before every call of \<open>move\<close>:
  the calls a step makes, in order, are growth calls, then convert calls, then diffuse
  calls, then move calls, and each was made on an actor that was on earth at the moment
  of the call (recording the calls does not change the run). The loop passes over an
  actor that is not on earth in the state the loop has reached, whatever made it so.
\<close>

theorem step_phases_in_order:
  assumes "step (recording S) nums (s, []) = Ok nums' (s', calls)"
  shows "step S nums s = Ok nums' s'
    \<and> (\<exists>grown converted diffused moved.
          calls = map (\<lambda>a. (''population_growth'', a, True)) grown
                @ map (\<lambda>a. (''convert'', a, True)) converted
                @ map (\<lambda>a. (''diffuse'', a, True)) diffused
                @ map (\<lambda>a. (''move'', a, True)) moved)
    \<and> sorted (map (\<lambda>k. phase (fst k)) calls)
    \<and> (\<forall>k\<in>set calls. snd (snd k))
    \<and> (\<forall>t a rest func. \<not> sch_on_earth S t a \<longrightarrow>
          trigger S (a # rest) func t = trigger S rest func t)"
proof -
  from assms obtain new sc0 u1 sc1 u2 sc2 u3 sc3 u4 sc4 where
    a0: "sch_add_farmers (recording S) (s, []) = Ok new sc0"
    and t1: "trigger (recording S) (sch_actors (recording S) sc0) ''population_growth'' sc0
               = Ok u1 sc1"
    and t2: "trigger (recording S) (sch_actors (recording S) sc1) ''convert'' sc1 = Ok u2 sc2"
    and t3: "trigger (recording S) (sch_actors (recording S) sc2) ''diffuse'' sc2 = Ok u3 sc3"
    and t4: "trigger (recording S) (hunters (recording S) sc3) ''move'' sc3 = Ok u4 sc4"
    and fin: "nums' = \<lparr>new_farmers = new_farmers nums @ [length new],
           farmers_num = farmers_num nums
             @ [sch_size_sum (recording S) (farmers (recording S) sc4) sc4],
           hunters_num = hunters_num nums
             @ [sch_size_sum (recording S) (hunters (recording S) sc4) sc4]\<rparr>"
    and last: "sc4 = (s', calls)"
    unfolding step_def bind_Ok by auto
  obtain s0 where s0: "sch_add_farmers S s = Ok new s0" "sc0 = (s0, [])"
    using a0 by (auto simp: with_calls_Ok)
  obtain s1 c1 where sc1: "sc1 = (s1, c1)" by (cases sc1)
  obtain s2 c2 where sc2: "sc2 = (s2, c2)" by (cases sc2)
  obtain s3 c3 where sc3: "sc3 = (s3, c3)" by (cases sc3)
  from trigger_recording [of S "sch_actors S s0" "''population_growth''" s0 "[]" u1 s1 c1]
  obtain k1 where r1: "trigger S (sch_actors S s0) ''population_growth'' s0 = Ok u1 s1"
    and c1: "c1 = k1" and k1: "\<forall>k\<in>set k1. fst k = ''population_growth'' \<and> snd (snd k)"
    using t1 s0 sc1 by auto
  from trigger_recording [of S "sch_actors S s1" "''convert''" s1 c1 u2 s2 c2]
  obtain k2 where r2: "trigger S (sch_actors S s1) ''convert'' s1 = Ok u2 s2"
    and c2: "c2 = c1 @ k2" and k2: "\<forall>k\<in>set k2. fst k = ''convert'' \<and> snd (snd k)"
    using t2 sc1 sc2 by auto
  from trigger_recording [of S "sch_actors S s2" "''diffuse''" s2 c2 u3 s3 c3]
  obtain k3 where r3: "trigger S (sch_actors S s2) ''diffuse'' s2 = Ok u3 s3"
    and c3: "c3 = c2 @ k3" and k3: "\<forall>k\<in>set k3. fst k = ''diffuse'' \<and> snd (snd k)"
    using t3 sc2 sc3 by auto
  from trigger_recording [of S "hunters S s3" "''move''" s3 c3 u4 s' calls]
  obtain k4 where r4: "trigger S (hunters S s3) ''move'' s3 = Ok u4 s'"
    and c4: "calls = c3 @ k4" and k4: "\<forall>k\<in>set k4. fst k = ''move'' \<and> snd (snd k)"
    using t4 sc3 last by (auto simp: hunters_def)
  have calls: "calls = k1 @ k2 @ k3 @ k4"
    using c1 c2 c3 c4 by simp
  have run: "step S nums s = Ok nums' s'"
    using s0(1) r1 r2 r3 r4 fin last
    by (simp add: step_def bind_def farmers_def hunters_def)
  have shape: "\<exists>grown converted diffused moved.
          calls = map (\<lambda>a. (''population_growth'', a, True)) grown
                @ map (\<lambda>a. (''convert'', a, True)) converted
                @ map (\<lambda>a. (''diffuse'', a, True)) diffused
                @ map (\<lambda>a. (''move'', a, True)) moved"
    unfolding calls
    using calls_of_one_method [OF k1] calls_of_one_method [OF k2]
      calls_of_one_method [OF k3] calls_of_one_method [OF k4]
    by metis
  have phases: "\<forall>k\<in>set k1. phase (fst k) = 0" "\<forall>k\<in>set k2. phase (fst k) = 1"
    "\<forall>k\<in>set k3. phase (fst k) = 2" "\<forall>k\<in>set k4. phase (fst k) = 3"
    using k1 k2 k3 k4 by (simp_all add: phase_def)
  have "sorted (map (\<lambda>k. phase (fst k)) calls)"
    unfolding calls
    using phases sorted_map_constant [OF phases(1)] sorted_map_constant [OF phases(2)]
      sorted_map_constant [OF phases(3)] sorted_map_constant [OF phases(4)]
    by (auto simp: sorted_append)
  moreover have "\<forall>k\<in>set calls. snd (snd k)"
    unfolding calls using k1 k2 k3 k4 by auto
  moreover have "\<forall>t a rest func. \<not> sch_on_earth S t a \<longrightarrow>
      trigger S (a # rest) func t = trigger S rest func t"
    by simp
  ultimately show ?thesis
    using run shape by blast
qed

theorem step_phases_in_order_witness:
  "step (recording toy_scheduler) no_numbers ([0, 1, 2], [])
     = Ok \<lparr>new_farmers = [0], farmers_num = [1], hunters_num = [1]\<rparr>
         ([0, 2],
          [(''population_growth'', 0, True), (''population_growth'', 1, True),
           (''population_growth'', 2, True), (''convert'', 0, True), (''convert'', 2, True),
           (''diffuse'', 0, True), (''diffuse'', 2, True), (''move'', 2, True)])
   \<and> step toy_scheduler no_numbers [0, 1, 2]
     = Ok \<lparr>new_farmers = [0], farmers_num = [1], hunters_num = [1]\<rparr> [0, 2]"
proof -
  have run: "step (recording toy_scheduler) no_numbers ([0, 1, 2], [])
     = Ok \<lparr>new_farmers = [0], farmers_num = [1], hunters_num = [1]\<rparr>
         ([0, 2],
          [(''population_growth'', 0, True), (''population_growth'', 1, True),
           (''population_growth'', 2, True), (''convert'', 0, True), (''convert'', 2, True),
           (''diffuse'', 0, True), (''diffuse'', 2, True), (''move'', 2, True)])"
    by (simp add: step_def bind_def toy_scheduler_def no_numbers_def recording_def
          with_calls_def farmers_def hunters_def)
  from step_phases_in_order [OF run] run show ?thesis
    by simp
qed

section \<open>Movement\<close>

lemma agents_site_put_on_left:
  "cell (actor_of w a) = Some here \<Longrightarrow> here \<noteq> c \<Longrightarrow>
   agents (patch_of (site_put_on a (Some c) w) here) = removeAll a (agents (patch_of w here))"
  by (simp add: site_put_on_def leave_cell_def Let_def)

lemma on_earth_site_put_on: "on_earth w a \<Longrightarrow> on_earth (site_put_on self (Some c) w) a"
  by (simp add: on_earth_def actor_of_site_put_on)

lemma on_earth_other_die: "a \<noteq> l \<Longrightarrow> on_earth (die l w) a = on_earth w a"
  by (simp add: on_earth_def actor_of_die)

lemma on_earth_set_size [simp]: "on_earth (set_size l v w) a = on_earth w a"
  by (simp add: on_earth_def actor_of_set_size)

lemma move_keeps_placed:
  assumes put: "\<And>self c w u w'. spared w a \<Longrightarrow> on_earth w a \<Longrightarrow>
      put_on n E self (Some c) w = Ok u w' \<Longrightarrow> on_earth w' a"
    and "alive (actor_of w a)" and "breed (actor_of w a) \<noteq> ''Farmer''"
    and "breed (actor_of w a) \<noteq> ''RiceFarmer''" and "a \<noteq> self \<longrightarrow> \<not> is_complex w a"
    and "on_earth w a"
    and "move n E self radius w = Ok moved w'"
  shows "on_earth w' a"
proof (cases "\<not> is_complex w self \<and> on_earth w self")
  case False
  then have "w' = w"
    using assms(7) by (auto simp: move.simps)
  then show ?thesis
    using assms(6) by simp
next
  case True
  then obtain here where here: "cell (actor_of w self) = Some here"
    by (auto simp: on_earth_def)
  have sp: "spared w a"
    using True assms(2-5) by (auto simp: spared_def)
  show ?thesis
  proof (cases "search_a_new_place E self here radius w")
    case None
    then have "w' = w"
      using assms(7) True here by (simp add: move.simps)
    then show ?thesis
      using assms(6) by simp
  next
    case (Some c)
    then obtain u where placed: "put_on n E self (Some c) w = Ok u w'"
      using assms(7) True here by (auto simp: move.simps returning_Ok)
    from put [OF sp assms(6) placed] show ?thesis .
  qed
qed

lemma loss_keeps_placed:
  assumes mv: "\<And>self radius w moved w'. alive (actor_of w a) \<Longrightarrow>
      breed (actor_of w a) \<noteq> ''Farmer'' \<Longrightarrow> breed (actor_of w a) \<noteq> ''RiceFarmer'' \<Longrightarrow>
      a \<noteq> self \<longrightarrow> \<not> is_complex w a \<Longrightarrow> on_earth w a \<Longrightarrow>
      move n E self radius w = Ok moved w' \<Longrightarrow> on_earth w' a"
    and sp: "spared w a" and on: "on_earth w a"
    and ok: "loss_competition n E self loser w = Ok u w'"
  shows "on_earth w' a"
proof -
  consider (dies) "breed (actor_of w loser) = ''Farmer'' \<or> breed (actor_of w loser) = ''RiceFarmer''
        \<or> breed (actor_of w loser) = ''Hunter'' \<and> is_complex w loser"
    | (mobile) "breed (actor_of w loser) \<noteq> ''Farmer''" "breed (actor_of w loser) \<noteq> ''RiceFarmer''"
        "breed (actor_of w loser) = ''Hunter''" "\<not> is_complex w loser"
    | (unknown) "breed (actor_of w loser) \<noteq> ''Farmer''" "breed (actor_of w loser) \<noteq> ''RiceFarmer''"
        "breed (actor_of w loser) \<noteq> ''Hunter''"
    by blast
  then show ?thesis
  proof cases
    case dies
    then have "loss_competition n E self loser w = Ok () (die loser w)"
      by (rule loss_competition_dies)
    moreover have "a \<noteq> loser"
      using dies sp by (auto simp: spared_def)
    ultimately show ?thesis
      using ok on by (simp add: on_earth_other_die)
  next
    case mobile
    define w1 where "w1 = set_size loser (gsize (actor_of w loser) * loss_rate w) w"
    have a1: "alive (actor_of w1 a)" "breed (actor_of w1 a) \<noteq> ''Farmer''"
      "breed (actor_of w1 a) \<noteq> ''RiceFarmer''" "a \<noteq> loser \<longrightarrow> \<not> is_complex w1 a"
      "on_earth w1 a"
      using sp on by (auto simp: w1_def spared_def actor_of_set_size is_complex_def on_earth_def)
    have run: "(if on_earth w1 loser then returning () (move n E loser 1 w1) else Ok () w1) = Ok u w'"
      using ok mobile
      by (auto simp: loss_competition.simps Let_def w1_def simp del: One_nat_def split: if_splits)
    show ?thesis
    proof (cases "on_earth w1 loser")
      case True
      then obtain moved where "move n E loser 1 w1 = Ok moved w'"
        using run by (auto simp: returning_Ok)
      then show ?thesis
        using mv a1 by blast
    next
      case False
      then have "w' = w1"
        using run by simp
      then show ?thesis
        using a1 by simp
    qed
  next
    case unknown
    then show ?thesis
      using ok by (simp add: loss_competition.simps)
  qed
qed

lemma compete_keeps_placed:
  assumes loss: "\<And>self loser w u w'. spared w a \<Longrightarrow> on_earth w a \<Longrightarrow>
      loss_competition n E self loser w = Ok u w' \<Longrightarrow> on_earth w' a"
    and sp: "spared w a" and on: "on_earth w a"
    and ok: "compete n E self other w = Ok won w'"
  shows "on_earth w' a"
  using compete_Ok_loss [OF ok] loss [OF sp on] by blast

lemma put_on_keeps_placed:
  "spared w a \<Longrightarrow> on_earth w a \<Longrightarrow> put_on n E self (Some c) w = Ok u w' \<Longrightarrow> on_earth w' a"
proof (induction n arbitrary: w self c u w')
  case 0
  then show ?case
    by (auto simp: put_on.simps has_agent_def Let_def on_earth_site_put_on split: if_splits)
next
  case (Suc n)
  have mv: "on_earth w' a"
    if "alive (actor_of w a)" "breed (actor_of w a) \<noteq> ''Farmer''"
      "breed (actor_of w a) \<noteq> ''RiceFarmer''" "a \<noteq> self \<longrightarrow> \<not> is_complex w a"
      "on_earth w a" "move n E self radius w = Ok moved w'" for self radius w moved w'
    using move_keeps_placed [where n = n and E = E and a = a] Suc.IH that by blast
  have loss: "on_earth w' a"
    if "spared w a" "on_earth w a" "loss_competition n E self loser w = Ok u w'"
    for self loser w u w'
    using loss_keeps_placed [where n = n and E = E and a = a] mv that by blast
  have comp: "on_earth w' a"
    if "spared w a" "on_earth w a" "compete n E self other w = Ok won w'"
    for self other w won w'
    using compete_keeps_placed [where n = n and E = E and a = a] loss that by blast
  have sp1: "spared (site_put_on self (Some c) w) a"
    using Suc.prems(1,2) by (intro spared_site_put_on) simp_all
  have on1: "on_earth (site_put_on self (Some c) w) a"
    using Suc.prems(2) by (rule on_earth_site_put_on)
  show ?case
  proof (cases "agents (patch_of w c)")
    case Nil
    then have "w' = site_put_on self (Some c) w"
      using Suc.prems(3) by (simp add: put_on.simps has_agent_def Let_def)
    then show ?thesis
      using on1 by simp
  next
    case (Cons other rest)
    then obtain won where "compete n E self other (site_put_on self (Some c) w) = Ok won w'"
      using Suc.prems(3) by (auto simp: put_on.simps has_agent_def Let_def returning_Ok)
    then show ?thesis
      using comp sp1 on1 by blast
  qed
qed

text \<open>
  C7. \<open>move()\<close> returns false and changes nothing when the Hunter is complex or is not on
  earth, and also when no new place is found. Only a Hunter that is on earth and not
  complex, for which \<open>search_a_new_place\<close> finds a cell, is relocated: the call is then
  \<open>put_on\<close> of that cell and returns true after it. The placement takes the Hunter from
  the cell it stood on and puts it, with its size, on the cell found: on an empty cell
  the move returns true in that very state, whatever the fuel; on an occupied cell the
  competition with the first agent there starts from that state. Whenever \<open>move()\<close>
  returns true, the Hunter was on earth and not complex, a cell was found, and a living
  Hunter is still alive and on earth afterwards.
\<close>

theorem move_only_when_mobile_and_placed:
  "(is_complex w self \<or> \<not> on_earth w self \<longrightarrow> move n E self radius w = Ok False w)
   \<and> (\<not> is_complex w self \<and> cell (actor_of w self) = Some here
        \<and> search_a_new_place E self here radius w = None \<longrightarrow>
        move n E self radius w = Ok False w)
   \<and> (\<not> is_complex w self \<and> cell (actor_of w self) = Some here
        \<and> search_a_new_place E self here radius w = Some c \<longrightarrow>
        move n E self radius w = returning True (put_on n E self (Some c) w)
        \<and> (agents (patch_of w c) = [] \<longrightarrow>
             move n E self radius w = Ok True (site_put_on self (Some c) w))
        \<and> (\<forall>other rest. agents (patch_of w c) = other # rest \<longrightarrow>
             move (Suc n) E self radius w
               = returning True (compete n E self other (site_put_on self (Some c) w)))
        \<and> cell (actor_of (site_put_on self (Some c) w) self) = Some c
        \<and> gsize (actor_of (site_put_on self (Some c) w) self) = gsize (actor_of w self)
        \<and> self \<in> set (agents (patch_of (site_put_on self (Some c) w) c))
        \<and> (here \<noteq> c \<longrightarrow> self \<notin> set (agents (patch_of (site_put_on self (Some c) w) here))))
   \<and> (\<forall>w'. move n E self radius w = Ok True w' \<longrightarrow>
        \<not> is_complex w self \<and> on_earth w self
        \<and> (\<exists>here c. cell (actor_of w self) = Some here
              \<and> search_a_new_place E self here radius w = Some c
              \<and> put_on n E self (Some c) w = Ok () w')
        \<and> (alive (actor_of w self) \<and> breed (actor_of w self) = ''Hunter'' \<longrightarrow>
             alive (actor_of w' self) \<and> on_earth w' self))"
proof -
  have still: "move n E self radius w = Ok False w"
    if "is_complex w self \<or> \<not> on_earth w self"
    using that by (auto simp: move.simps)
  have nowhere: "move n E self radius w = Ok False w"
    if "\<not> is_complex w self" "cell (actor_of w self) = Some here"
      "search_a_new_place E self here radius w = None"
    using that by (simp add: move.simps on_earth_def)
  have placed: "move n E self radius w = returning True (put_on n E self (Some c) w)"
    if "\<not> is_complex w self" "cell (actor_of w self) = Some here"
      "search_a_new_place E self here radius w = Some c" for n
    using that by (simp add: move.simps on_earth_def)
  have vacant: "move n E self radius w = Ok True (site_put_on self (Some c) w)"
    if "\<not> is_complex w self" "cell (actor_of w self) = Some here"
      "search_a_new_place E self here radius w = Some c" "agents (patch_of w c) = []"
    using placed [OF that(1-3)] that(4)
    by (simp add: put_on.simps has_agent_def Let_def returning_def)
  have occupied: "move (Suc n) E self radius w
      = returning True (compete n E self other (site_put_on self (Some c) w))"
    if "\<not> is_complex w self" "cell (actor_of w self) = Some here"
      "search_a_new_place E self here radius w = Some c" "agents (patch_of w c) = other # rest"
    for other rest
    using placed [OF that(1-3), of "Suc n"] that(4)
    by (cases "compete n E self other (site_put_on self (Some c) w)")
      (simp_all add: put_on.simps has_agent_def Let_def returning_def)
  have there: "cell (actor_of (site_put_on self (Some c) w) self) = Some c"
    and size: "gsize (actor_of (site_put_on self (Some c) w) self) = gsize (actor_of w self)"
    and arrived: "self \<in> set (agents (patch_of (site_put_on self (Some c) w) c))"
    by (simp_all add: actor_of_site_put_on agents_site_put_on)
  have left: "self \<notin> set (agents (patch_of (site_put_on self (Some c) w) here))"
    if "cell (actor_of w self) = Some here" "here \<noteq> c"
    using that by (simp add: agents_site_put_on_left)
  have moved: "\<not> is_complex w self \<and> on_earth w self
        \<and> (\<exists>here c. cell (actor_of w self) = Some here
              \<and> search_a_new_place E self here radius w = Some c
              \<and> put_on n E self (Some c) w = Ok () w')"
    if "move n E self radius w = Ok True w'" for w'
    using that
    by (auto simp: move.simps on_earth_def returning_def split: option.splits result.splits
          if_splits)
  have kept: "alive (actor_of w' self) \<and> on_earth w' self"
    if ok: "move n E self radius w = Ok True w'"
      and live: "alive (actor_of w self)" and hunter: "breed (actor_of w self) = ''Hunter''"
    for w'
  proof -
    from moved [OF ok] obtain c where mobile: "\<not> is_complex w self" and on: "on_earth w self"
      and put: "put_on n E self (Some c) w = Ok () w'"
      by blast
    have sp: "spared w self"
      using live hunter mobile by (simp add: spared_def)
    have "alive (actor_of w' self)"
      using sp on put by (intro put_on_keeps_alive [where w = w and self = self]) simp_all
    moreover have "on_earth w' self"
      using sp on put by (rule put_on_keeps_placed)
    ultimately show ?thesis
      by simp
  qed
  have returns_true: "\<not> is_complex w self \<and> on_earth w self
        \<and> (\<exists>here c. cell (actor_of w self) = Some here
              \<and> search_a_new_place E self here radius w = Some c
              \<and> put_on n E self (Some c) w = Ok () w')
        \<and> (alive (actor_of w self) \<and> breed (actor_of w self) = ''Hunter'' \<longrightarrow>
             alive (actor_of w' self) \<and> on_earth w' self)"
    if ok: "move n E self radius w = Ok True w'" for w'
    using moved [OF ok] kept [OF ok] by blast
  have c1: "is_complex w self \<or> \<not> on_earth w self \<longrightarrow> move n E self radius w = Ok False w"
    using still by blast
  have c2: "\<not> is_complex w self \<and> cell (actor_of w self) = Some here
        \<and> search_a_new_place E self here radius w = None \<longrightarrow>
        move n E self radius w = Ok False w"
    using nowhere by blast
  have c3: "\<not> is_complex w self \<and> cell (actor_of w self) = Some here
        \<and> search_a_new_place E self here radius w = Some c \<longrightarrow>
        move n E self radius w = returning True (put_on n E self (Some c) w)
        \<and> (agents (patch_of w c) = [] \<longrightarrow>
             move n E self radius w = Ok True (site_put_on self (Some c) w))
        \<and> (\<forall>other rest. agents (patch_of w c) = other # rest \<longrightarrow>
             move (Suc n) E self radius w
               = returning True (compete n E self other (site_put_on self (Some c) w)))
        \<and> cell (actor_of (site_put_on self (Some c) w) self) = Some c
        \<and> gsize (actor_of (site_put_on self (Some c) w) self) = gsize (actor_of w self)
        \<and> self \<in> set (agents (patch_of (site_put_on self (Some c) w) c))
        \<and> (here \<noteq> c \<longrightarrow> self \<notin> set (agents (patch_of (site_put_on self (Some c) w) here)))"
  proof (intro impI, elim conjE)
    assume m: "\<not> is_complex w self" and h: "cell (actor_of w self) = Some here"
      and f: "search_a_new_place E self here radius w = Some c"
    show "move n E self radius w = returning True (put_on n E self (Some c) w)
        \<and> (agents (patch_of w c) = [] \<longrightarrow>
             move n E self radius w = Ok True (site_put_on self (Some c) w))
        \<and> (\<forall>other rest. agents (patch_of w c) = other # rest \<longrightarrow>
             move (Suc n) E self radius w
               = returning True (compete n E self other (site_put_on self (Some c) w)))
        \<and> cell (actor_of (site_put_on self (Some c) w) self) = Some c
        \<and> gsize (actor_of (site_put_on self (Some c) w) self) = gsize (actor_of w self)
        \<and> self \<in> set (agents (patch_of (site_put_on self (Some c) w) c))
        \<and> (here \<noteq> c \<longrightarrow> self \<notin> set (agents (patch_of (site_put_on self (Some c) w) here)))"
      using placed [OF m h f, of n] vacant [OF m h f] occupied [OF m h f] there size arrived
        left [OF h]
      by blast
  qed
  have c4: "\<forall>w'. move n E self radius w = Ok True w' \<longrightarrow>
        \<not> is_complex w self \<and> on_earth w self
        \<and> (\<exists>here c. cell (actor_of w self) = Some here
              \<and> search_a_new_place E self here radius w = Some c
              \<and> put_on n E self (Some c) w = Ok () w')
        \<and> (alive (actor_of w self) \<and> breed (actor_of w self) = ''Hunter'' \<longrightarrow>
             alive (actor_of w' self) \<and> on_earth w' self)"
    using returns_true by blast
  show ?thesis
    by (intro conjI) (rule c1, rule c2, rule c3, rule c4)
qed

theorem move_only_when_mobile_and_placed_witness:
  "is_complex demo_world 0 \<and> move 0 roaming_env 0 1 demo_world = Ok False demo_world
   \<and> \<not> is_complex demo_world 3 \<and> cell (actor_of demo_world 3) = Some 3
   \<and> alive (actor_of demo_world 3) \<and> breed (actor_of demo_world 3) = ''Hunter''
   \<and> search_a_new_place still_env 3 3 1 demo_world = None
   \<and> move 0 still_env 3 1 demo_world = Ok False demo_world
   \<and> search_a_new_place fleeing_env 3 3 1 demo_world = Some 6
   \<and> agents (patch_of demo_world 6) = []
   \<and> move 0 fleeing_env 3 1 demo_world = Ok True (site_put_on 3 (Some 6) demo_world)
   \<and> put_on 0 fleeing_env 3 (Some 6) demo_world = Ok () (site_put_on 3 (Some 6) demo_world)
   \<and> cell (actor_of (site_put_on 3 (Some 6) demo_world) 3) = Some 6
   \<and> gsize (actor_of (site_put_on 3 (Some 6) demo_world) 3) = 50
   \<and> 3 \<in> set (agents (patch_of (site_put_on 3 (Some 6) demo_world) 6))
   \<and> 3 \<notin> set (agents (patch_of (site_put_on 3 (Some 6) demo_world) 3))
   \<and> alive (actor_of (site_put_on 3 (Some 6) demo_world) 3)
   \<and> on_earth (site_put_on 3 (Some 6) demo_world) 3
   \<and> search_a_new_place raiding_env 3 3 1 demo_world = Some 1
   \<and> agents (patch_of demo_world 1) = [1]
   \<and> compete 0 raiding_env 3 1 (site_put_on 3 (Some 1) demo_world)
       = Ok False (set_size 3 25 (site_put_on 3 (Some 1) demo_world))
   \<and> move 1 raiding_env 3 1 demo_world
       = Ok True (set_size 3 25 (site_put_on 3 (Some 1) demo_world))"
proof -
  have settled: "is_complex demo_world 0" and mobile: "\<not> is_complex demo_world 3"
    and here: "cell (actor_of demo_world 3) = Some 3"
    and live: "alive (actor_of demo_world 3)" "breed (actor_of demo_world 3) = ''Hunter''"
    and size: "gsize (actor_of demo_world 3) = 50"
    and nowhere: "search_a_new_place still_env 3 3 1 demo_world = None"
    and away: "search_a_new_place fleeing_env 3 3 1 demo_world = Some 6"
    and empty: "agents (patch_of demo_world 6) = []"
    and raid: "search_a_new_place raiding_env 3 3 1 demo_world = Some 1"
    and farm: "agents (patch_of demo_world 1) = [1]"
    by (simp_all add: is_complex_def on_earth_def demo_defs)
  have apart: "(3::nat) \<noteq> 6"
    by simp
  have fight: "compete 0 raiding_env 3 1 (site_put_on 3 (Some 1) demo_world)
       = Ok False (set_size 3 25 (site_put_on 3 (Some 1) demo_world))"
    by (simp add: compete.simps compete_with_farmer.simps loss_competition.simps move.simps
          returning_def Let_def is_complex_def on_earth_def set_size_def clamped_size_def
          max_size_def site_put_on_def leave_cell_def demo_defs)
  note stay = move_only_when_mobile_and_placed [where w = demo_world and self = 0 and n = 0
        and E = roaming_env and radius = 1]
  note none = move_only_when_mobile_and_placed [where w = demo_world and self = 3 and n = 0
        and E = still_env and radius = 1 and here = 3]
  note flee = move_only_when_mobile_and_placed [where w = demo_world and self = 3 and n = 0
        and E = fleeing_env and radius = 1 and here = 3 and c = 6]
  note raids = move_only_when_mobile_and_placed [where w = demo_world and self = 3 and n = 0
        and E = raiding_env and radius = 1 and here = 3 and c = 1]
  have fled: "move 0 fleeing_env 3 1 demo_world = Ok True (site_put_on 3 (Some 6) demo_world)"
    using flee mobile here away empty by blast
  have after: "put_on 0 fleeing_env 3 (Some 6) demo_world
        = Ok () (site_put_on 3 (Some 6) demo_world)
      \<and> alive (actor_of (site_put_on 3 (Some 6) demo_world) 3)
      \<and> on_earth (site_put_on 3 (Some 6) demo_world) 3"
    using flee [THEN conjunct2, THEN conjunct2, THEN conjunct2, THEN spec,
        where x = "site_put_on 3 (Some 6) demo_world"] fled here away live
    by auto
  have "cell (actor_of (site_put_on 3 (Some 6) demo_world) 3) = Some 6
      \<and> gsize (actor_of (site_put_on 3 (Some 6) demo_world) 3) = gsize (actor_of demo_world 3)
      \<and> 3 \<in> set (agents (patch_of (site_put_on 3 (Some 6) demo_world) 6))
      \<and> 3 \<notin> set (agents (patch_of (site_put_on 3 (Some 6) demo_world) 3))"
    using flee mobile here away apart by blast
  then have placed: "cell (actor_of (site_put_on 3 (Some 6) demo_world) 3) = Some 6
      \<and> gsize (actor_of (site_put_on 3 (Some 6) demo_world) 3) = 50
      \<and> 3 \<in> set (agents (patch_of (site_put_on 3 (Some 6) demo_world) 6))
      \<and> 3 \<notin> set (agents (patch_of (site_put_on 3 (Some 6) demo_world) 3))"
    using size by simp
  have "move (Suc 0) raiding_env 3 1 demo_world
       = returning True (compete 0 raiding_env 3 1 (site_put_on 3 (Some 1) demo_world))"
    using raids mobile here raid farm by blast
  then have raided: "move 1 raiding_env 3 1 demo_world
       = Ok True (set_size 3 25 (site_put_on 3 (Some 1) demo_world))"
    using fight by (simp add: returning_def)
  have stayed: "move 0 roaming_env 0 1 demo_world = Ok False demo_world"
    using stay settled by blast
  have found_none: "move 0 still_env 3 1 demo_world = Ok False demo_world"
    using none mobile here nowhere by blast
  show ?thesis
    using settled mobile here live nowhere away empty raid farm fight fled after placed
      raided stayed found_none
    by simp
qed

end
